theory Spec2Isabelle
  imports Main "HOL-Library.Word"
begin

unbundle bit_operations_syntax

section \<open>Python values: bytes, exceptions, formatting\<close>

text \<open>
  A Python \<^verbatim>\<open>bytes\<close>/\<^verbatim>\<open>bytearray\<close> value is a list of \<^typ>\<open>char\<close> (a HOL character is
  one byte, \<^term>\<open>of_char\<close> reads it as the integer Python sees when it indexes the
  value). A Python \<^verbatim>\<open>str\<close> is modelled as a \<^typ>\<open>string\<close> of code points below 256,
  which is what \<^verbatim>\<open>decode("ascii")\<close> and \<^verbatim>\<open>decode("latin-1")\<close> produce.
\<close>

type_synonym bytes = string

datatype WebSocketCloseCode =
    NORMAL | GOING_AWAY | PROTOCOL_ERROR | UNSUPPORTED_DATA | INVALID_DATA
  | POLICY_VIOLATION | TOO_BIG | MISSING_EXTENSION | INTERNAL_SERVER_ERROR

fun close_code_value :: "WebSocketCloseCode \<Rightarrow> nat" where
  "close_code_value NORMAL = 1000"
| "close_code_value GOING_AWAY = 1001"
| "close_code_value PROTOCOL_ERROR = 1002"
| "close_code_value UNSUPPORTED_DATA = 1003"
| "close_code_value INVALID_DATA = 1007"
| "close_code_value POLICY_VIOLATION = 1008"
| "close_code_value TOO_BIG = 1009"
| "close_code_value MISSING_EXTENSION = 1010"
| "close_code_value INTERNAL_SERVER_ERROR = 1011"

text \<open>
  Every exception the modelled code can raise. \<open>WebSocketError\<close> is the one exception
  class the repository defines (parsers/websocket.py); the others are Python's built-in
  exceptions, raised by the interpreter or the standard library.
\<close>

datatype error =
    WebSocketError WebSocketCloseCode string
  | ValueError
  | TypeError
  | AttributeError
  | IndexError
  | KeyError
  | UnboundLocalError
  | UnicodeDecodeError
  | AssertionError
  | Exception string

fun named_error :: "error \<Rightarrow> bool" where
  "named_error (WebSocketError code msg) = True"
| "named_error e = False"

fun map_result :: "('a \<Rightarrow> error + 'b) \<Rightarrow> 'a list \<Rightarrow> error + 'b list" where
  "map_result f [] = Inr []"
| "map_result f (x # xs) =
     (case f x of
        Inl e \<Rightarrow> Inl e
      | Inr y \<Rightarrow> (case map_result f xs of Inl e \<Rightarrow> Inl e | Inr ys \<Rightarrow> Inr (y # ys)))"

fun fold_result :: "('a \<Rightarrow> 's \<Rightarrow> error + 's) \<Rightarrow> 'a list \<Rightarrow> 's \<Rightarrow> error + 's" where
  "fold_result f [] s = Inr s"
| "fold_result f (x # xs) s =
     (case f x s of Inl e \<Rightarrow> Inl e | Inr s' \<Rightarrow> fold_result f xs s')"

text \<open>Python slicing \<^verbatim>\<open>xs[i:j]\<close>: a negative index counts from the end, and both are clamped.\<close>

definition norm_index :: "nat \<Rightarrow> int \<Rightarrow> nat" where
  "norm_index n i = (if i < 0 then nat (max 0 (int n + i)) else min n (nat i))"

definition slice :: "'a list \<Rightarrow> int \<Rightarrow> int \<Rightarrow> 'a list" where
  "slice xs i j = drop (norm_index (length xs) i) (take (norm_index (length xs) j) xs)"

text \<open>\<^verbatim>\<open>f"{n:08b}"\<close>: the binary digits of \<open>n\<close>, padded with zeros on the left to width 8.\<close>

definition bit_char :: "nat \<Rightarrow> char" where
  "bit_char d = (if d = 0 then CHR ''0'' else CHR ''1'')"

fun bin_digits :: "nat \<Rightarrow> string" where
  "bin_digits n =
     (if n < 2 then [bit_char n] else bin_digits (n div 2) @ [bit_char (n mod 2)])"

declare bin_digits.simps [simp del]

definition format_08b :: "nat \<Rightarrow> string" where
  "format_08b n = (let s = bin_digits n in replicate (8 - length s) CHR ''0'' @ s)"

text \<open>\<^verbatim>\<open>str(n)\<close> and \<^verbatim>\<open>f"{n:04}"\<close> (decimal, zero-padded to width 4), \<^verbatim>\<open>"%x" % n\<close> (hexadecimal).\<close>

definition digit_chars :: string where
  "digit_chars = ''0123456789abcdef''"

fun dec_digits :: "nat \<Rightarrow> string" where
  "dec_digits n =
     (if n < 10 then [digit_chars ! n] else dec_digits (n div 10) @ [digit_chars ! (n mod 10)])"

declare dec_digits.simps [simp del]

fun hex_digits :: "nat \<Rightarrow> string" where
  "hex_digits n =
     (if n < 16 then [digit_chars ! n] else hex_digits (n div 16) @ [digit_chars ! (n mod 16)])"

declare hex_digits.simps [simp del]

definition format_04 :: "nat \<Rightarrow> string" where
  "format_04 n = (let s = dec_digits n in replicate (4 - length s) CHR ''0'' @ s)"

definition str_int :: "int \<Rightarrow> string" where
  "str_int i = (if i < 0 then CHR ''-'' # dec_digits (nat (- i)) else dec_digits (nat i))"

text \<open>
  \<^verbatim>\<open>int(s, 2)\<close> on a string of decimal digits (the only strings the code passes): the
  value when \<open>s\<close> is a non-empty string of binary digits, \<open>ValueError\<close> otherwise.
\<close>

definition int_base2 :: "string \<Rightarrow> error + nat" where
  "int_base2 s =
     (if s = [] \<or> \<not> list_all (\<lambda>c. c = CHR ''0'' \<or> c = CHR ''1'') s then Inl ValueError
      else Inr (foldl (\<lambda>acc c. 2 * acc + (if c = CHR ''1'' then 1 else 0)) 0 s))"

text \<open>\<^verbatim>\<open>int(c)\<close> on a one-character digit string.\<close>

definition int_digit :: "char \<Rightarrow> nat" where
  "int_digit c = of_char c - 48"

text \<open>\<^verbatim>\<open>bytes([...])\<close>: every integer must be in \<open>range(256)\<close>.\<close>

definition py_bytes :: "nat list \<Rightarrow> error + bytes" where
  "py_bytes ns = (if list_all (\<lambda>n. n < 256) ns then Inr (map char_of ns) else Inl ValueError)"

text \<open>\<^verbatim>\<open>str.encode()\<close> (UTF-8) on code points below 256.\<close>

definition utf8_encode :: "string \<Rightarrow> bytes" where
  "utf8_encode s =
     concat (map (\<lambda>c. let n = (of_char c :: nat)
                      in if n < 128 then [c]
                         else [char_of (192 + n div 64), char_of (128 + n mod 64)]) s)"

section \<open>parsers/websocket.py\<close>

text \<open>
  The \<^verbatim>\<open>xor\<close> helper: both operands are formatted as bit strings, the characters are
  compared position by position (\<^verbatim>\<open>int(a[x]) + int(b[x]) == 1\<close>), and the resulting bit
  string is read back as an integer.
\<close>

definition xor_py :: "nat \<Rightarrow> nat \<Rightarrow> error + nat" where
  "xor_py bytes_one bytes_two =
     (let bitstr_one = format_08b bytes_one;
          bitstr_two = format_08b bytes_two;
          result_bitstr =
            map (\<lambda>x. if int_digit (bitstr_one ! x) + int_digit (bitstr_two ! x) = 1
                      then CHR ''1'' else CHR ''0'') [0..<8]
      in int_base2 result_bitstr)"

definition HEAD_FRAME_INDEXES :: "(int \<times> int) list" where
  "HEAD_FRAME_INDEXES = [(0, 1), (1, 2), (2, 3), (3, 4), (4, 8)]"

definition MASK_AND_PAYLOAD_LEN_FRAME_INDEXES :: "(int \<times> int) list" where
  "MASK_AND_PAYLOAD_LEN_FRAME_INDEXES = [(0, 1), (1, 8)]"

datatype WebSocketParserState = INITIAL_BYTES | PAYLOAD_LENGTH | MASKING_KEY

datatype WebSocketOpcode = TEXT | BINARY | CLOSE | PING | PONG

fun opcode_value :: "WebSocketOpcode \<Rightarrow> nat" where
  "opcode_value TEXT = 1"
| "opcode_value BINARY = 2"
| "opcode_value CLOSE = 8"
| "opcode_value PING = 9"
| "opcode_value PONG = 10"

text \<open>\<^verbatim>\<open>WebSocketOpcode(n)\<close>: the member with value \<open>n\<close>; the enum raises \<open>ValueError\<close> if none.\<close>

definition WebSocketOpcode_of :: "nat \<Rightarrow> error + WebSocketOpcode" where
  "WebSocketOpcode_of n =
     (if n = 1 then Inr TEXT
      else if n = 2 then Inr BINARY
      else if n = 8 then Inr CLOSE
      else if n = 9 then Inr PING
      else if n = 10 then Inr PONG
      else Inl ValueError)"

text \<open>
  \<^verbatim>\<open>WebSocketOpcode.BYTES\<close>: the enum has no member of that name (the binary opcode is
  \<open>BINARY\<close>), so evaluating the attribute raises \<open>AttributeError\<close>.
\<close>

definition WebSocketOpcode_BYTES :: "error + WebSocketOpcode" where
  "WebSocketOpcode_BYTES = Inl AttributeError"

definition get_frame_values :: "nat \<Rightarrow> (int \<times> int) list \<Rightarrow> error + nat list" where
  "get_frame_values data indexes =
     (let bitstr = format_08b data
      in map_result (\<lambda>i. int_base2 (slice bitstr (fst i) (snd i))) indexes)"


text \<open>
  \<^verbatim>\<open>get_frame_content\<close>, the server-frame encoder. The opcode is formatted with \<^verbatim>\<open>:04\<close>
  (decimal, width 4), the eight characters are read as a base-2 integer, and the header
  and the payload length are packed as the two bytes \<^verbatim>\<open>bytes([header, payload_len])\<close>.
\<close>

datatype payload = StrPayload string | BytesPayload bytes

definition get_frame_content ::
  "payload \<Rightarrow> WebSocketOpcode \<Rightarrow> nat \<Rightarrow> nat \<Rightarrow> nat \<Rightarrow> nat \<Rightarrow> error + bytes" where
  "get_frame_content payload_data opcode fin rsv1 rsv2 rsv3 =
     (let payload_bytes = (case payload_data of StrPayload s \<Rightarrow> utf8_encode s | BytesPayload b \<Rightarrow> b);
          payload_len = length payload_bytes;
          opcode_str = format_04 (opcode_value opcode)
      in case int_base2 (dec_digits fin @ dec_digits rsv1 @ dec_digits rsv2 @ dec_digits rsv3 @ opcode_str) of
           Inl e \<Rightarrow> Inl e
         | Inr header \<Rightarrow>
             (case py_bytes [header, payload_len] of
                Inl e \<Rightarrow> Inl e
              | Inr head \<Rightarrow> Inr (head @ payload_bytes)))"

section \<open>parsers/http.py\<close>

abbreviation CR :: char where "CR \<equiv> CHR 0x0D"
abbreviation LF :: char where "LF \<equiv> CHR 0x0A"

datatype HTTPParserState = PARSING_REQUEST | PARSING_HEADERS | PARSING_COMPLETE

record HTTPParser =
  parser_state :: HTTPParserState
  http_method :: "string option"
  http_version :: "string option"
  path :: "string option"
  query_string :: "string option"
  headers :: "(bytes \<times> bytes) list"
  parsing_data :: "bytes option"
  parsing_header :: bytes
  parsing_sep_pos :: "int option"
  next_sep_pos :: "int option"
  next_header :: bytes
  raw_headers :: bytes
  upgrade_header :: "(bytes \<times> bytes) option"
  should_upgrade :: "bool option"

definition HTTPParser_init :: HTTPParser where
  "HTTPParser_init =
     \<lparr> parser_state = PARSING_REQUEST, http_method = None, http_version = None, path = None,
       query_string = None, headers = [], parsing_data = None, parsing_header = [],
       parsing_sep_pos = None, next_sep_pos = None, next_header = [], raw_headers = [],
       upgrade_header = None, should_upgrade = None \<rparr>"

definition is_complete :: "HTTPParser \<Rightarrow> bool" where
  "is_complete p = (parser_state p = PARSING_COMPLETE)"

text \<open>\<^verbatim>\<open>bytes.decode("ascii")\<close>, \<^verbatim>\<open>str.strip()\<close>, \<^verbatim>\<open>bytes.strip()\<close>, \<^verbatim>\<open>str.split(" ")\<close>, \<^verbatim>\<open>bytes.lower()\<close>, \<^verbatim>\<open>in\<close>.\<close>

definition decode_ascii :: "bytes \<Rightarrow> error + string" where
  "decode_ascii b =
     (if list_all (\<lambda>c. (of_char c :: nat) < 128) b then Inr b else Inl UnicodeDecodeError)"

definition str_isspace :: "char \<Rightarrow> bool" where
  "str_isspace c = (let n = (of_char c :: nat) in (9 \<le> n \<and> n \<le> 13) \<or> (28 \<le> n \<and> n \<le> 32))"

definition bytes_isspace :: "char \<Rightarrow> bool" where
  "bytes_isspace c = (let n = (of_char c :: nat) in (9 \<le> n \<and> n \<le> 13) \<or> n = 32)"

definition strip :: "(char \<Rightarrow> bool) \<Rightarrow> string \<Rightarrow> string" where
  "strip ws s = rev (dropWhile ws (rev (dropWhile ws s)))"

fun split_on :: "char \<Rightarrow> string \<Rightarrow> string list" where
  "split_on sep [] = [[]]"
| "split_on sep (c # cs) =
     (if c = sep then [] # split_on sep cs
      else (case split_on sep cs of [] \<Rightarrow> [[c]] | w # ws \<Rightarrow> (c # w) # ws))"

definition lower :: "bytes \<Rightarrow> bytes" where
  "lower b =
     map (\<lambda>c. let n = (of_char c :: nat) in if 65 \<le> n \<and> n \<le> 90 then char_of (n + 32) else c) b"

fun starts_with :: "bytes \<Rightarrow> bytes \<Rightarrow> bool" where
  "starts_with s [] = True"
| "starts_with [] (c # sub) = False"
| "starts_with (d # s) (c # sub) = (d = c \<and> starts_with s sub)"

fun contains :: "bytes \<Rightarrow> bytes \<Rightarrow> bool" where
  "contains [] sub = starts_with [] sub"
| "contains (d # s) sub = (starts_with (d # s) sub \<or> contains s sub)"

text \<open>
  The branch of \<^verbatim>\<open>parse_headers\<close> that finalises \<^verbatim>\<open>next_header\<close>: the name and the value
  are sliced around \<^verbatim>\<open>next_sep_pos\<close> (\<^verbatim>\<open>None - 1\<close> raises \<open>TypeError\<close>), the upgrade fields
  are updated and the pair is appended to \<^verbatim>\<open>headers\<close>.
\<close>

definition finalise_next_header :: "HTTPParser \<Rightarrow> error + HTTPParser" where
  "finalise_next_header p =
     (case next_sep_pos p of
        None \<Rightarrow> Inl TypeError
      | Some sep \<Rightarrow>
          (let nh = next_header p;
               current_header = slice nh 0 (sep - 1);
               current_value = slice nh (sep + 1) (int (length nh) - 2);
               header = (current_header, current_value);
               p' = (if should_upgrade p = None then
                       (if lower current_header = ''connection'' then
                          (if \<not> contains (lower current_value) ''upgrade''
                           then p\<lparr>should_upgrade := Some False\<rparr>
                           else p\<lparr>should_upgrade := Some True\<rparr>)
                        else p)
                     else if should_upgrade p = Some True \<and> upgrade_header p = None then
                       (if lower current_header = ''upgrade''
                        then p\<lparr>upgrade_header := Some header\<rparr>
                        else p)
                     else p)
           in Inr (p'\<lparr>headers := headers p' @ [header]\<rparr>)))"

text \<open>
  One iteration of the loop of \<^verbatim>\<open>parse_headers\<close> on the one-byte slice \<open>b\<close>; the second
  component is the local counter \<^verbatim>\<open>data_len\<close>. \<open>urlparse\<close> stands for
  \<^verbatim>\<open>urllib.parse.urlparse\<close> and returns the \<^verbatim>\<open>path\<close> and \<^verbatim>\<open>query\<close> of its result.
\<close>

definition parse_byte ::
  "(string \<Rightarrow> error + string \<times> string) \<Rightarrow> bytes \<Rightarrow> HTTPParser \<times> int \<Rightarrow> error + HTTPParser \<times> int" where
  "parse_byte urlparse b st =
     (let p = fst st;
          data_len = snd st - 1;
          ph = parsing_header p @ b;
          p1 = (if b = '':'' \<and> parsing_sep_pos p = None \<and> parser_state p \<noteq> PARSING_REQUEST
                then p\<lparr>parsing_sep_pos := Some (int (length ph))\<rparr> else p)
      in if b = [LF] then
           (if parser_state p1 \<noteq> PARSING_HEADERS then
              (case decode_ascii ph of
                 Inl e \<Rightarrow> Inl e
               | Inr line \<Rightarrow>
                   (case split_on CHR '' '' (strip str_isspace line) of
                      [method, target, version] \<Rightarrow>
                        (case urlparse target of
                           Inl e \<Rightarrow> Inl e
                         | Inr parsed \<Rightarrow>
                             Inr (p1\<lparr>http_method := Some method, http_version := Some version,
                                      path := Some (fst parsed), query_string := Some (snd parsed),
                                      parser_state := PARSING_HEADERS, parsing_header := []\<rparr>,
                                  data_len))
                    | _ \<Rightarrow> Inl ValueError))
            else
              (case (if next_header p1 \<noteq> [] then finalise_next_header p1 else Inr p1) of
                 Inl e \<Rightarrow> Inl e
               | Inr p2 \<Rightarrow>
                   (let p3 = (if ph = [CR, LF]
                              then p2\<lparr>next_header := next_header p2 @ ph,
                                      parser_state := PARSING_COMPLETE\<rparr>
                              else p2)
                    in Inr (p3\<lparr>next_sep_pos := parsing_sep_pos p3, next_header := ph,
                                parsing_sep_pos := None, parsing_header := []\<rparr>,
                            data_len))))
         else Inr (p1\<lparr>parsing_header := ph\<rparr>, data_len))"

definition parse_headers ::
  "(string \<Rightarrow> error + string \<times> string) \<Rightarrow> bytes \<Rightarrow> HTTPParser \<Rightarrow> error + HTTPParser" where
  "parse_headers urlparse data0 p0 =
     (let p = p0\<lparr>raw_headers := raw_headers p0 @ data0\<rparr>;
          data = (case parsing_data p of None \<Rightarrow> data0 | Some pd \<Rightarrow> pd @ data0);
          data_len = int (length data)
      in case fold_result (\<lambda>i. parse_byte urlparse (slice data (int i) (int i + 1)))
                [0..<length data] (p, data_len) of
           Inl e \<Rightarrow> Inl e
         | Inr st \<Rightarrow>
             Inr (if snd st > 0 then (fst st)\<lparr>parsing_data := Some data\<rparr> else fst st))"

text \<open>Feeding a sequence of slices, one \<^verbatim>\<open>parse_headers\<close> call each; an exception ends it.\<close>

definition feed_slices ::
  "(string \<Rightarrow> error + string \<times> string) \<Rightarrow> bytes list \<Rightarrow> HTTPParser \<Rightarrow> error + HTTPParser" where
  "feed_slices urlparse slices p = fold_result (parse_headers urlparse) slices p"

text \<open>
  A stand-in for \<^verbatim>\<open>urllib.parse.urlparse\<close> on an origin-form request target (a path,
  optionally followed by \<^verbatim>\<open>?query\<close> and \<^verbatim>\<open>#fragment\<close>); it instantiates the \<open>urlparse\<close>
  parameter where a theorem is applied to a concrete request.
\<close>

definition urlparse_origin_form :: "string \<Rightarrow> error + string \<times> string" where
  "urlparse_origin_form target =
     (let url = takeWhile (\<lambda>c. c \<noteq> CHR ''#'') target
      in Inr (takeWhile (\<lambda>c. c \<noteq> CHR ''?'') url, drop 1 (dropWhile (\<lambda>c. c \<noteq> CHR ''?'') url)))"


section \<open>utils.py\<close>

text \<open>
  \<^verbatim>\<open>hashlib.sha1(...).digest()\<close> and \<^verbatim>\<open>base64.b64encode\<close> belong to Python's standard
  library; they are written out here after FIPS 180-4 and RFC 4648, so that the accept
  key of a concrete handshake can be computed.
\<close>

definition rotl32 :: "nat \<Rightarrow> 32 word \<Rightarrow> 32 word" where
  "rotl32 n w = push_bit n w OR drop_bit (32 - n) w"

definition be_bytes :: "nat \<Rightarrow> nat \<Rightarrow> bytes" where
  "be_bytes k n = map (\<lambda>i. char_of (n div 256 ^ (k - 1 - i))) [0..<k]"

fun be_word :: "bytes \<Rightarrow> 32 word" where
  "be_word b = foldl (\<lambda>acc c. push_bit 8 acc + of_nat (of_char c)) 0 b"

definition sha1_pad :: "bytes \<Rightarrow> bytes" where
  "sha1_pad m =
     m @ [CHR 0x80] @ replicate ((64 - (length m + 9) mod 64) mod 64) (CHR 0x00)
       @ be_bytes 8 (8 * length m)"

fun chunks_of :: "nat \<Rightarrow> 'a list \<Rightarrow> 'a list list" where
  "chunks_of n xs =
     (if n = 0 \<or> xs = [] then [] else take n xs # chunks_of n (drop n xs))"

declare chunks_of.simps [simp del]

function sha1_extend :: "32 word list \<Rightarrow> 32 word list" where
  "sha1_extend ws =
     (let l = length ws
      in if 80 \<le> l \<or> l < 16 then ws
         else sha1_extend
           (ws @ [rotl32 1 (ws ! (l - 3) XOR ws ! (l - 8) XOR ws ! (l - 14) XOR ws ! (l - 16))]))"
  by pat_completeness auto
termination
  by (relation "measure (\<lambda>ws. 80 - length ws)") auto

declare sha1_extend.simps [simp del]

type_synonym sha1_state = "32 word \<times> 32 word \<times> 32 word \<times> 32 word \<times> 32 word"

fun sha1_round :: "nat \<Rightarrow> 32 word \<Rightarrow> sha1_state \<Rightarrow> sha1_state" where
  "sha1_round t w (a, b, c, d, e) =
     (let f = (if t < 20 then (b AND c) OR (NOT b AND d)
               else if t < 40 then b XOR c XOR d
               else if t < 60 then (b AND c) OR (b AND d) OR (c AND d)
               else b XOR c XOR d);
          k = (if t < 20 then 0x5A827999
               else if t < 40 then 0x6ED9EBA1
               else if t < 60 then 0x8F1BBCDC
               else 0xCA62C1D6)
      in (rotl32 5 a + f + e + k + w, a, rotl32 30 b, c, d))"

fun sha1_rounds :: "nat \<Rightarrow> 32 word list \<Rightarrow> sha1_state \<Rightarrow> sha1_state" where
  "sha1_rounds t [] st = st"
| "sha1_rounds t (w # ws) st = sha1_rounds (t + 1) ws (sha1_round t w st)"

fun sha1_add :: "sha1_state \<Rightarrow> sha1_state \<Rightarrow> sha1_state" where
  "sha1_add (h0, h1, h2, h3, h4) (a, b, c, d, e) = (h0 + a, h1 + b, h2 + c, h3 + d, h4 + e)"

definition sha1_block :: "sha1_state \<Rightarrow> bytes \<Rightarrow> sha1_state" where
  "sha1_block h block =
     sha1_add h (sha1_rounds 0 (sha1_extend (map be_word (chunks_of 4 block))) h)"

fun sha1_digest :: "sha1_state \<Rightarrow> bytes" where
  "sha1_digest (h0, h1, h2, h3, h4) = concat (map (\<lambda>h. be_bytes 4 (unat h)) [h0, h1, h2, h3, h4])"

definition sha1 :: "bytes \<Rightarrow> bytes" where
  "sha1 m =
     sha1_digest (foldl sha1_block (0x67452301, 0xEFCDAB89, 0x98BADCFE, 0x10325476, 0xC3D2E1F0)
                    (chunks_of 64 (sha1_pad m)))"

definition b64_alphabet :: string where
  "b64_alphabet = ''ABCDEFGHIJKLMNOPQRSTUVWXYZabcdefghijklmnopqrstuvwxyz0123456789+/''"

fun b64encode :: "bytes \<Rightarrow> bytes" where
  "b64encode [] = []"
| "b64encode [a] =
     (let n = of_char a * 65536
      in [b64_alphabet ! (n div 262144), b64_alphabet ! (n div 4096 mod 64), CHR ''='', CHR ''=''])"
| "b64encode [a, b] =
     (let n = of_char a * 65536 + of_char b * 256
      in [b64_alphabet ! (n div 262144), b64_alphabet ! (n div 4096 mod 64),
          b64_alphabet ! (n div 64 mod 64), CHR ''=''])"
| "b64encode (a # b # c # rest) =
     (let n = of_char a * 65536 + of_char b * 256 + of_char c
      in [b64_alphabet ! (n div 262144), b64_alphabet ! (n div 4096 mod 64),
          b64_alphabet ! (n div 64 mod 64), b64_alphabet ! (n mod 64)] @ b64encode rest)"

definition HTTP_SERVER_NAME :: bytes where
  "HTTP_SERVER_NAME = ''server: aiobufpro'' @ [CR, LF]"

definition WEBSOCKET_ACCEPT_GUID :: string where
  "WEBSOCKET_ACCEPT_GUID = ''258EAFA5-E914-47DA-95CA-C5AB0DC85B11''"

definition get_websocket_accept_key :: "bytes \<Rightarrow> bytes" where
  "get_websocket_accept_key sec_websocket_key =
     (let header_key = strip bytes_isspace sec_websocket_key;
          accept_key = header_key @ utf8_encode WEBSOCKET_ACCEPT_GUID;
          accept_key_hash = sha1 accept_key
      in b64encode accept_key_hash)"

text \<open>
  \<^verbatim>\<open>get_server_headers\<close>. \<open>phrase\<close> stands for \<^verbatim>\<open>http.HTTPStatus(status).phrase.encode()\<close>
  (\<open>None\<close> where the lookup raises \<open>ValueError\<close>, which the function catches), \<open>date\<close> for
  \<^verbatim>\<open>formatdate(time.time(), usegmt=True).encode()\<close>.
\<close>

definition get_server_headers :: "(int \<Rightarrow> bytes option) \<Rightarrow> bytes \<Rightarrow> int \<Rightarrow> bytes list" where
  "get_server_headers phrase date status =
     [ ''HTTP/1.1 '' @ utf8_encode (str_int status) @ '' ''
         @ (case phrase status of Some ph \<Rightarrow> ph | None \<Rightarrow> []) @ [CR, LF],
       HTTP_SERVER_NAME,
       ''date: '' @ date @ [CR, LF] ]"

section \<open>protocol.py\<close>

datatype HTTPWSProtocolState =
  PROTO_REQUEST | PROTO_RESPONSE | PROTO_STREAMING | PROTO_FRAMING | PROTO_CLOSED

datatype active_parser = HTTP HTTPParser | WebSocket WebSocketParserState

text \<open>
  The fields of \<^verbatim>\<open>HTTPWSProtocol\<close> that the response and frame paths read or write. The
  transport is the list of the byte strings passed to \<^verbatim>\<open>transport.write\<close>, in order, and
  a flag for \<^verbatim>\<open>transport.close()\<close>.
\<close>

record HTTPWSProtocol =
  proto_state :: HTTPWSProtocolState
  parser :: active_parser
  buffer_data :: bytes
  transport_written :: "bytes list"
  transport_closed :: bool
  keep_alive :: bool
  write_paused :: bool

text \<open>
  What the modelled paths take from outside: the standard library's status phrases, the
  current date and \<^verbatim>\<open>int(value.decode())\<close>, and the two receive handlers of the protocol
  (\<^verbatim>\<open>on_header\<close> parses a request and starts the application task, \<^verbatim>\<open>on_frame\<close> schedules
  \<^verbatim>\<open>parse_frame\<close> as a task), which \<^verbatim>\<open>buffer_updated\<close> dispatches to.
\<close>

record externals =
  http_phrase :: "int \<Rightarrow> bytes option"
  date_now :: bytes
  int_decode :: "bytes \<Rightarrow> error + int"
  on_header :: "bytes \<Rightarrow> HTTPWSProtocol \<Rightarrow> error + HTTPWSProtocol"
  on_frame :: "bytes \<Rightarrow> HTTPWSProtocol \<Rightarrow> error + HTTPWSProtocol"

definition get_buffer :: "nat \<Rightarrow> HTTPWSProtocol \<Rightarrow> HTTPWSProtocol" where
  "get_buffer sizehint p =
     (if length (buffer_data p) < sizehint
      then p\<lparr>buffer_data := buffer_data p @ replicate (sizehint - length (buffer_data p)) (CHR 0x00)\<rparr>
      else p)"

definition buffer_updated ::
  "externals \<Rightarrow> nat \<Rightarrow> bool \<Rightarrow> HTTPWSProtocol \<Rightarrow> error + HTTPWSProtocol" where
  "buffer_updated ext nbytes is_writable p =
     (let data = slice (buffer_data p) 0 (int nbytes)
      in if proto_state p = PROTO_REQUEST then on_header ext data p
         else if is_writable then Inr (p\<lparr>transport_written := transport_written p @ [data]\<rparr>)
         else on_frame ext data p)"

text \<open>
  \<^verbatim>\<open>feed_data(content)\<close>, always called with the default \<^verbatim>\<open>is_writable=True\<close>. The content
  is a byte string, a string, or (where an \<^verbatim>\<open>async def\<close> was called without \<^verbatim>\<open>await\<close>) a
  coroutine object, on which \<^verbatim>\<open>len\<close> raises \<open>TypeError\<close>.
\<close>

datatype content = BytesContent bytes | StrContent string | CoroutineContent

definition feed_data :: "externals \<Rightarrow> content \<Rightarrow> HTTPWSProtocol \<Rightarrow> error + HTTPWSProtocol" where
  "feed_data ext cont p =
     (case (case cont of
              BytesContent b \<Rightarrow> Inr b
            | StrContent s \<Rightarrow> Inr (utf8_encode s)
            | CoroutineContent \<Rightarrow> Inl TypeError) of
        Inl e \<Rightarrow> Inl e
      | Inr b \<Rightarrow>
          (let buf_size = length b;
               p1 = get_buffer buf_size p;
               p2 = p1\<lparr>buffer_data := b @ drop buf_size (buffer_data p1)\<rparr>
           in buffer_updated ext buf_size True p2))"

definition on_response_complete :: "HTTPWSProtocol \<Rightarrow> HTTPWSProtocol" where
  "on_response_complete p =
     (if \<not> keep_alive p then p\<lparr>transport_closed := True\<rparr>
      else p\<lparr>proto_state := PROTO_REQUEST, parser := HTTP HTTPParser_init\<rparr>)"


section \<open>connections.py\<close>

datatype ASGIConnectionState = REQUEST | RESPONSE | STREAMING | CLOSED

text \<open>An ASGI message (a Python dict): its \<^verbatim>\<open>type\<close> and the optional keys the handlers read.\<close>

record message =
  m_type :: string
  m_status :: "int option"
  m_headers :: "(bytes \<times> bytes) list option"
  m_body :: "bytes option"
  m_more_body :: "bool option"
  m_text :: "string option"
  m_bytes :: "bytes option"

definition msg :: "string \<Rightarrow> message" where
  "msg t = \<lparr> m_type = t, m_status = None, m_headers = None, m_body = None,
              m_more_body = None, m_text = None, m_bytes = None \<rparr>"

text \<open>
  \<^verbatim>\<open>ASGIConnection\<close>. The connection and the protocol refer to each other; the model keeps
  the protocol inside the connection record and passes the pair along. \<open>app_queue\<close> is
  \<open>None\<close> until \<^verbatim>\<open>run_asgi\<close> creates the queue, \<open>content\<close> is \<open>None\<close> until
  \<^verbatim>\<open>on_http_response_start\<close> sets the attribute.
\<close>

record ASGIConnection =
  protocol :: HTTPWSProtocol
  conn_state :: ASGIConnectionState
  app_queue :: "message list option"
  content_length :: "int option"
  content :: "bytes list option"

definition put_message :: "message \<Rightarrow> ASGIConnection \<Rightarrow> error + ASGIConnection" where
  "put_message m c =
     (if conn_state c = CLOSED then Inr c
      else (case app_queue c of
              None \<Rightarrow> Inl AttributeError
            | Some q \<Rightarrow> Inr (c\<lparr>app_queue := Some (q @ [m])\<rparr>)))"

text \<open>\<^verbatim>\<open>receive\<close>: the next queued message; \<open>None\<close> while the queue is empty (the call waits).\<close>

definition receive :: "ASGIConnection \<Rightarrow> (message \<times> ASGIConnection) option" where
  "receive c =
     (case app_queue c of
        Some (m # q) \<Rightarrow> Some (m, c\<lparr>app_queue := Some q\<rparr>)
      | _ \<Rightarrow> None)"

definition update_connection_state ::
  "ASGIConnectionState \<Rightarrow> ASGIConnection \<Rightarrow> error + ASGIConnection" where
  "update_connection_state new_state c =
     (if conn_state c = new_state then Inl AssertionError else Inr (c\<lparr>conn_state := new_state\<rparr>))"

text \<open>The body of the loop over the application's headers in \<^verbatim>\<open>on_http_response_start\<close>.\<close>

definition start_header ::
  "externals \<Rightarrow> bytes \<times> bytes \<Rightarrow> ASGIConnection \<Rightarrow> error + ASGIConnection" where
  "start_header ext h c =
     (let header_name = fst h; header_value = snd h
      in case (if header_name = ''content-length'' then
                 (case int_decode ext header_value of
                    Inl e \<Rightarrow> Inl e
                  | Inr n \<Rightarrow> Inr (c\<lparr>content_length := Some n\<rparr>))
               else if header_name = ''connection'' \<and> header_value = ''close'' then
                 Inr (c\<lparr>protocol := (protocol c)\<lparr>keep_alive := False\<rparr>\<rparr>)
               else Inr c) of
           Inl e \<Rightarrow> Inl e
         | Inr c1 \<Rightarrow>
             (case content c1 of
                None \<Rightarrow> Inl AttributeError
              | Some ct \<Rightarrow>
                  Inr (c1\<lparr>content := Some (ct @ [header_name @ '': '' @ header_value @ [CR, LF]])\<rparr>)))"

definition on_http_response_start ::
  "externals \<Rightarrow> message \<Rightarrow> ASGIConnection \<Rightarrow> error + ASGIConnection" where
  "on_http_response_start ext m c =
     (if conn_state c \<noteq> REQUEST then
        Inl (Exception ''Invalid `http.response.start` event: The response has already started.'')
      else (case m_status m of
              None \<Rightarrow> Inl KeyError
            | Some status \<Rightarrow>
                (let hs = (case m_headers m of None \<Rightarrow> [] | Some hs \<Rightarrow> hs);
                     c1 = c\<lparr>content := Some (get_server_headers (http_phrase ext) (date_now ext) status)\<rparr>
                 in case fold_result (start_header ext) hs c1 of
                      Inl e \<Rightarrow> Inl e
                    | Inr c2 \<Rightarrow> update_connection_state RESPONSE c2)))"

text \<open>
  \<^verbatim>\<open>on_http_response_body\<close>. The lengths are formatted with \<^verbatim>\<open>%x\<close>, in the chunk headers
  and in the \<^verbatim>\<open>content-length\<close> line alike. The final \<^verbatim>\<open>await self.protocol.drain()\<close> only
  waits for the transport and changes no field.
\<close>

definition on_http_response_body ::
  "externals \<Rightarrow> message \<Rightarrow> ASGIConnection \<Rightarrow> error + ASGIConnection" where
  "on_http_response_body ext m c =
     (if conn_state c \<noteq> RESPONSE \<and> conn_state c \<noteq> STREAMING then
        Inl (Exception ''Invalid `http.response.body` event: The response has not started.'')
      else
        (let body = (case m_body m of None \<Rightarrow> [] | Some b \<Rightarrow> b);
             more_body = (case m_more_body m of None \<Rightarrow> False | Some b \<Rightarrow> b)
         in if conn_state c = RESPONSE then
              (case content c of
                 None \<Rightarrow> Inl AttributeError
               | Some ct \<Rightarrow>
                   (if \<not> more_body then
                      (let ct1 = (if content_length c = None
                                  then ct @ [''content-length: '' @ hex_digits (length body) @ [CR, LF, CR, LF]]
                                  else ct @ [[CR, LF]]);
                           ct2 = ct1 @ [body, [CR, LF]]
                       in case feed_data ext (BytesContent (concat ct2)) (protocol c) of
                            Inl e \<Rightarrow> Inl e
                          | Inr p \<Rightarrow>
                              update_connection_state CLOSED (c\<lparr>content := Some ct2, protocol := p\<rparr>))
                    else
                      (let ct2 = ct @ [''transfer-encoding: chunked'' @ [CR, LF, CR, LF],
                                       hex_digits (length body) @ [CR, LF], body, [CR, LF]]
                       in case feed_data ext (BytesContent (concat ct2)) (protocol c) of
                            Inl e \<Rightarrow> Inl e
                          | Inr p \<Rightarrow>
                              update_connection_state STREAMING (c\<lparr>content := Some ct2, protocol := p\<rparr>))))
            else
              (case feed_data ext
                      (BytesContent (concat [hex_digits (length body) @ [CR, LF], body, [CR, LF]]))
                      (protocol c) of
                 Inl e \<Rightarrow> Inl e
               | Inr p \<Rightarrow>
                   (if \<not> more_body then
                      (case feed_data ext (BytesContent (''0'' @ [CR, LF, CR, LF])) p of
                         Inl e \<Rightarrow> Inl e
                       | Inr p' \<Rightarrow> update_connection_state CLOSED (c\<lparr>protocol := p'\<rparr>))
                    else Inr (c\<lparr>protocol := p\<rparr>)))))"

definition on_connection_complete :: "ASGIConnection \<Rightarrow> error + ASGIConnection" where
  "on_connection_complete c =
     (case put_message (msg ''http.disconnect'') c of
        Inl e \<Rightarrow> Inl e
      | Inr c1 \<Rightarrow> Inr (c1\<lparr>protocol := on_response_complete (protocol c1)\<rparr>))"

text \<open>
  \<^verbatim>\<open>send\<close> of an \<^verbatim>\<open>ASGIHTTPConnection\<close>: the handler is looked up by name with \<^verbatim>\<open>getattr\<close>
  (\<open>AttributeError\<close> if there is none; \<^verbatim>\<open>on_connection_complete\<close> takes no message and
  raises \<open>TypeError\<close> when called with one), and a connection left \<open>CLOSED\<close> by the
  handler is completed.
\<close>

definition send :: "externals \<Rightarrow> message \<Rightarrow> ASGIConnection \<Rightarrow> error + ASGIConnection" where
  "send ext m c =
     (let handler_name = ''on_'' @ map (\<lambda>ch. if ch = CHR ''.'' then CHR ''_'' else ch) (m_type m)
      in case (if handler_name = ''on_http_response_start'' then on_http_response_start ext m c
               else if handler_name = ''on_http_response_body'' then on_http_response_body ext m c
               else if handler_name = ''on_connection_complete'' then Inl TypeError
               else Inl AttributeError) of
           Inl e \<Rightarrow> Inl e
         | Inr c1 \<Rightarrow> (if conn_state c1 = CLOSED then on_connection_complete c1 else Inr c1))"


section \<open>parsers/websocket.py: the frame decoder\<close>

text \<open>
  The local variables of \<^verbatim>\<open>parse_frame\<close> that the later stages read. They are bound by the
  first stage only; a call that skips it finds them unbound (\<open>UnboundLocalError\<close>).
\<close>

record frame_locals =
  l_opcode :: WebSocketOpcode
  l_is_control_frame :: bool
  l_payload_len :: nat

text \<open>The stage for \<^verbatim>\<open>INITIAL_BYTES\<close>, on the two bytes \<^verbatim>\<open>data[:2]\<close>.\<close>

definition parse_initial_bytes :: "nat \<Rightarrow> nat \<Rightarrow> error + WebSocketParserState \<times> frame_locals" where
  "parse_initial_bytes bytes_one bytes_two =
     (case get_frame_values bytes_one HEAD_FRAME_INDEXES of
        Inl e \<Rightarrow> Inl e
      | Inr [fin, rsv1, rsv2, rsv3, opcode_n] \<Rightarrow>
          (let is_control_frame = (opcode_n > 7)
           in case WebSocketOpcode_of opcode_n of
                Inl e \<Rightarrow> Inl e
              | Inr opcode \<Rightarrow>
                  (case get_frame_values bytes_two MASK_AND_PAYLOAD_LEN_FRAME_INDEXES of
                     Inl e \<Rightarrow> Inl e
                   | Inr [mask_bit, payload_len] \<Rightarrow>
                       (if is_control_frame \<and> fin = 0 then
                          Inl (WebSocketError PROTOCOL_ERROR ''Control frame is fragmented.'')
                        else if is_control_frame \<and> payload_len > 125 then
                          Inl (WebSocketError PROTOCOL_ERROR
                                 ''Control frame payload greater than 125 bytes.'')
                        else if mask_bit \<noteq> 1 then
                          Inl (WebSocketError PROTOCOL_ERROR ''Frame mask missing.'')
                        else
                          Inr (if payload_len \<le> 125 then MASKING_KEY else PAYLOAD_LENGTH,
                               \<lparr> l_opcode = opcode, l_is_control_frame = is_control_frame,
                                 l_payload_len = payload_len \<rparr>))
                   | Inr _ \<Rightarrow> Inl ValueError))
      | Inr _ \<Rightarrow> Inl ValueError)"

text \<open>
  \<^verbatim>\<open>f"{payload_len_data:08b}"\<close> on a \<^verbatim>\<open>bytearray\<close>: the type has no \<^verbatim>\<open>__format__\<close> of its
  own, and \<^verbatim>\<open>object.__format__\<close> raises \<open>TypeError\<close> on a non-empty format string.
\<close>

definition format_08b_bytearray :: "bytes \<Rightarrow> error + string" where
  "format_08b_bytearray b = Inl TypeError"

text \<open>The stage for \<^verbatim>\<open>PAYLOAD_LENGTH\<close>: the extended payload length.\<close>

definition parse_payload_length ::
  "bytes \<Rightarrow> frame_locals option \<Rightarrow> error + bytes \<times> frame_locals" where
  "parse_payload_length data locals =
     (case locals of
        None \<Rightarrow> Inl UnboundLocalError
      | Some l \<Rightarrow>
          (case (if l_payload_len l < 127 \<and> length data \<ge> 2 then Some 2
                 else if length data \<ge> 8 then Some 8
                 else None) of
             None \<Rightarrow> Inl UnboundLocalError
           | Some payload_len_bytes \<Rightarrow>
               (let payload_len_data = slice data 0 payload_len_bytes
                in case format_08b_bytearray payload_len_data of
                     Inl e \<Rightarrow> Inl e
                   | Inr bitstr \<Rightarrow>
                       (case int_base2 bitstr of
                          Inl e \<Rightarrow> Inl e
                        | Inr payload_len \<Rightarrow>
                            Inr (drop (nat payload_len_bytes) data,
                                 l\<lparr>l_payload_len := payload_len\<rparr>)))))"

text \<open>
  The list comprehension that unmasks the payload:
  \<^verbatim>\<open>bytes([xor(data[i], masking_key[i % 4]) for i in range(payload_len)])\<close>.
\<close>

definition unmask :: "bytes \<Rightarrow> bytes \<Rightarrow> nat \<Rightarrow> error + bytes" where
  "unmask data masking_key payload_len =
     (case map_result
             (\<lambda>i. if i < length data
                   then xor_py (of_char (data ! i)) (of_char (masking_key ! (i mod 4)))
                   else Inl IndexError)
             [0..<payload_len] of
        Inl e \<Rightarrow> Inl e
      | Inr ns \<Rightarrow> py_bytes ns)"

text \<open>
  The stage for \<^verbatim>\<open>MASKING_KEY\<close>, on the data after the masking key. A data frame is queued
  for the application; for a ping, \<^verbatim>\<open>get_frame_content\<close> (an \<^verbatim>\<open>async def\<close>) is called
  without \<^verbatim>\<open>await\<close>, so \<^verbatim>\<open>content\<close> is a coroutine object and none of the encoder runs.
\<close>

definition deliver_frame ::
  "externals \<Rightarrow> frame_locals \<Rightarrow> bytes \<Rightarrow> ASGIConnection \<Rightarrow> error + ASGIConnection" where
  "deliver_frame ext l payload_data c =
     (if \<not> l_is_control_frame l then
        (case (if l_opcode l = TEXT then
                 Inr ((msg ''websocket.receive'')\<lparr>m_text := Some payload_data\<rparr>)
               else (case WebSocketOpcode_BYTES of
                       Inl e \<Rightarrow> Inl e
                     | Inr bytes_opcode \<Rightarrow>
                         Inr (if l_opcode l = bytes_opcode
                              then (msg ''websocket.receive'')\<lparr>m_bytes := Some payload_data\<rparr>
                              else msg ''websocket.receive''))) of
           Inl e \<Rightarrow> Inl e
         | Inr m \<Rightarrow> put_message m c)
      else if l_opcode l = PING then
        (case feed_data ext CoroutineContent (protocol c) of
           Inl e \<Rightarrow> Inl e
         | Inr p \<Rightarrow> Inr (c\<lparr>protocol := p\<rparr>))
      else Inr c)"

text \<open>
  \<^verbatim>\<open>parse_frame\<close>: the three stages in sequence, each guarded by the parser state. The
  result is the new parser state and the connection.
\<close>

definition parse_frame ::
  "externals \<Rightarrow> bytes \<Rightarrow> WebSocketParserState \<times> ASGIConnection
     \<Rightarrow> error + WebSocketParserState \<times> ASGIConnection" where
  "parse_frame ext data0 sc =
     (let state0 = fst sc; c = snd sc
      in case (if state0 = INITIAL_BYTES \<and> length data0 \<ge> 2 then
                 (case parse_initial_bytes (of_char (data0 ! 0)) (of_char (data0 ! 1)) of
                    Inl e \<Rightarrow> Inl e
                  | Inr r \<Rightarrow> Inr (fst r, drop 2 data0, Some (snd r)))
               else Inr (state0, data0, None)) of
           Inl e \<Rightarrow> Inl e
         | Inr (state1, data1, locals1) \<Rightarrow>
             (case (if state1 = PAYLOAD_LENGTH then
                      (case parse_payload_length data1 locals1 of
                         Inl e \<Rightarrow> Inl e
                       | Inr r \<Rightarrow> Inr (MASKING_KEY, fst r, Some (snd r)))
                    else Inr (state1, data1, locals1)) of
                Inl e \<Rightarrow> Inl e
              | Inr (state2, data2, locals2) \<Rightarrow>
                  (if state2 = MASKING_KEY \<and> length data2 \<ge> 4 then
                     (let masking_key = take 4 data2; data3 = drop 4 data2
                      in case locals2 of
                           None \<Rightarrow> Inl UnboundLocalError
                         | Some l \<Rightarrow>
                             (case unmask data3 masking_key (l_payload_len l) of
                                Inl e \<Rightarrow> Inl e
                              | Inr payload_data \<Rightarrow>
                                  (case deliver_frame ext l payload_data c of
                                     Inl e \<Rightarrow> Inl e
                                   | Inr c' \<Rightarrow> Inr (INITIAL_BYTES, c'))))
                   else Inr (state2, c))))"

section \<open>Reference definitions, after the specification\<close>

text \<open>
  The server frame of RFC 6455 that the specification asks of the encoder: FIN set, RSV
  clear, the opcode, no mask, and the shortest of the three length encodings.
\<close>

definition spec_server_frame :: "WebSocketOpcode \<Rightarrow> bytes \<Rightarrow> bytes" where
  "spec_server_frame opcode payload_bytes =
     (let n = length payload_bytes
      in [char_of (128 + opcode_value opcode)]
         @ (if n \<le> 125 then [char_of n]
            else if n \<le> 65535 then [char_of (126 :: nat)] @ be_bytes 2 n
            else [char_of (127 :: nat)] @ be_bytes 8 n)
         @ payload_bytes)"

section \<open>Auxiliary definitions for the proofs\<close>

fun bits_msb :: "nat \<Rightarrow> nat \<Rightarrow> string" where
  "bits_msb 0 n = []"
| "bits_msb (Suc w) n = bits_msb w (n div 2) @ [bit_char (n mod 2)]"

definition xor_char :: "char \<Rightarrow> char \<Rightarrow> char" where
  "xor_char c d = (if int_digit c + int_digit d = 1 then CHR ''1'' else CHR ''0'')"

definition horner2 :: "string \<Rightarrow> nat" where
  "horner2 s = foldl (\<lambda>acc c. 2 * acc + (if c = CHR ''1'' then 1 else 0)) 0 s"



text \<open>One loop iteration of \<^verbatim>\<open>parse_headers\<close> as a function of the parser alone.\<close>

definition parse_step ::
  "(string \<Rightarrow> error + string \<times> string) \<Rightarrow> char \<Rightarrow> HTTPParser \<Rightarrow> error + HTTPParser" where
  "parse_step urlparse ch p =
     (case parse_byte urlparse [ch] (p, 0) of Inl e \<Rightarrow> Inl e | Inr st \<Rightarrow> Inr (fst st))"

text \<open>
  \<^verbatim>\<open>HTTPWSProtocol.__init__\<close>, and \<^verbatim>\<open>run_asgi\<close> of an \<^verbatim>\<open>ASGIHTTPConnection\<close>: the queue is created
  and the initial \<^verbatim>\<open>http.request\<close> message is queued (the application task that
  \<^verbatim>\<open>run_asgi\<close> schedules is not part of the model; its calls of \<^verbatim>\<open>send\<close> are).
\<close>

definition HTTPWSProtocol_init :: HTTPWSProtocol where
  "HTTPWSProtocol_init =
     \<lparr> proto_state = PROTO_REQUEST, parser = HTTP HTTPParser_init,
       buffer_data = replicate 100 (CHR 0x00), transport_written = [],
       transport_closed = False, keep_alive = True, write_paused = False \<rparr>"

definition run_asgi :: "HTTPWSProtocol \<Rightarrow> error + ASGIConnection" where
  "run_asgi p =
     put_message ((msg ''http.request'')\<lparr>m_body := Some []\<rparr>)
       \<lparr> protocol = p, conn_state = REQUEST, app_queue = Some [],
         content_length = None, content = None \<rparr>"

text \<open>
  The upgrade fields as the specification describes them, as functions of the list of
  completed headers: the flag is decided by the first header named \<^verbatim>\<open>connection\<close>, the
  target is the first header named \<^verbatim>\<open>upgrade\<close> after it, when the flag is yes.
\<close>

definition is_connection :: "bytes \<times> bytes \<Rightarrow> bool" where
  "is_connection h = (lower (fst h) = ''connection'')"

definition is_upgrade :: "bytes \<times> bytes \<Rightarrow> bool" where
  "is_upgrade h = (lower (fst h) = ''upgrade'')"

definition flag_of_headers :: "(bytes \<times> bytes) list \<Rightarrow> bool option" where
  "flag_of_headers hs =
     (case find is_connection hs of
        None \<Rightarrow> None
      | Some h \<Rightarrow> Some (contains (lower (snd h)) ''upgrade''))"

definition target_of_headers :: "(bytes \<times> bytes) list \<Rightarrow> (bytes \<times> bytes) option" where
  "target_of_headers hs =
     (if flag_of_headers hs = Some True
      then find is_upgrade (drop 1 (dropWhile (\<lambda>h. \<not> is_connection h) hs))
      else None)"

definition upgrade_inv :: "HTTPParser \<Rightarrow> bool" where
  "upgrade_inv p =
     (should_upgrade p = flag_of_headers (headers p) \<and>
      upgrade_header p = target_of_headers (headers p))"

section \<open>Properties of the \<^verbatim>\<open>xor\<close> helper and of unmasking\<close>

lemma bits_msb_zero: "bits_msb w 0 = replicate w CHR ''0''"
  by (induction w) (simp_all add: bit_char_def replicate_append_same)

lemma length_bits_msb: "length (bits_msb w n) = w"
  by (induction w arbitrary: n) simp_all

lemma pad_bin_digits:
  "0 < w \<Longrightarrow> n < 2 ^ w \<Longrightarrow>
   replicate (w - length (bin_digits n)) CHR ''0'' @ bin_digits n = bits_msb w n"
proof (induction w arbitrary: n)
  case 0
  then show ?case by simp
next
  case (Suc w)
  show ?case
  proof (cases "n < 2")
    case True
    then have "n div 2 = 0" "n mod 2 = n" by simp_all
    with True show ?thesis
      by (simp add: bin_digits.simps [of n] bits_msb_zero)
  next
    case False
    with Suc.prems have w: "0 < w" by (cases w) simp_all
    from Suc.prems have lt: "n div 2 < 2 ^ w" by simp
    from False have bd: "bin_digits n = bin_digits (n div 2) @ [bit_char (n mod 2)]"
      by (simp add: bin_digits.simps [of n])
    show ?thesis using Suc.IH [OF w lt] by (simp add: bd)
  qed
qed

lemma format_08b_bits: "n < 256 \<Longrightarrow> format_08b n = bits_msb 8 n"
  using pad_bin_digits [of 8 n] by (simp add: format_08b_def Let_def)

lemma bits_msb_binary:
  "list_all (\<lambda>c. c = CHR ''0'' \<or> c = CHR ''1'') (map2 xor_char (bits_msb w a) (bits_msb w k))"
  by (induction w arbitrary: a k) (simp_all add: length_bits_msb xor_char_def)

lemma xor_char_bit_char:
  "xor_char (bit_char (a mod 2)) (bit_char (k mod 2)) =
     (if odd a \<noteq> odd k then CHR ''1'' else CHR ''0'')"
  by (auto simp add: xor_char_def bit_char_def int_digit_def odd_iff_mod_2_eq_one)

lemma horner2_snoc: "horner2 (s @ [c]) = 2 * horner2 s + (if c = CHR ''1'' then 1 else 0)"
  by (simp add: horner2_def)

lemma horner2_bits_xor:
  "a < 2 ^ w \<Longrightarrow> k < 2 ^ w \<Longrightarrow>
   horner2 (map2 xor_char (bits_msb w a) (bits_msb w k)) = a XOR k"
proof (induction w arbitrary: a k)
  case 0
  then show ?case by (simp add: horner2_def)
next
  case (Suc w)
  from Suc.prems have "a div 2 < 2 ^ w" "k div 2 < 2 ^ w" by simp_all
  then have IH: "horner2 (map2 xor_char (bits_msb w (a div 2)) (bits_msb w (k div 2)))
      = (a div 2) XOR (k div 2)"
    by (rule Suc.IH)
  have "a XOR k = of_bool (odd a \<noteq> odd k) + 2 * ((a div 2) XOR (k div 2))"
    by (rule xor_rec)
  then show ?case
    by (simp add: length_bits_msb horner2_snoc IH xor_char_bit_char)
qed

lemma map_nth2:
  "length xs = n \<Longrightarrow> length ys = n \<Longrightarrow> map (\<lambda>x. f (xs ! x) (ys ! x)) [0..<n] = map2 f xs ys"
  by (simp add: list_eq_iff_nth_eq)

lemma xor_py_bitwise:
  assumes "a < 256" "k < 256"
  shows "xor_py a k = Inr (a XOR k)"
proof -
  have fa: "format_08b a = bits_msb 8 a" and fk: "format_08b k = bits_msb 8 k"
    using assms by (simp_all add: format_08b_bits)
  have m: "map (\<lambda>x. xor_char (bits_msb 8 a ! x) (bits_msb 8 k ! x)) [0..<8]
      = map2 xor_char (bits_msb 8 a) (bits_msb 8 k)"
    by (rule map_nth2) (simp_all only: length_bits_msb)
  have "length (map2 xor_char (bits_msb 8 a) (bits_msb 8 k)) = 8"
    by (simp add: length_bits_msb)
  then have ne: "map2 xor_char (bits_msb 8 a) (bits_msb 8 k) \<noteq> []"
    by (metis list.size(3) zero_neq_numeral)
  have h: "horner2 (map2 xor_char (bits_msb 8 a) (bits_msb 8 k)) = a XOR k"
    using assms by (intro horner2_bits_xor) simp_all
  show ?thesis
    unfolding xor_py_def Let_def fa fk xor_char_def [symmetric] m int_base2_def
    using ne bits_msb_binary [of 8 a k] h by (simp only: horner2_def if_False simp_thms)
qed

lemma xor_nat_less_256:
  fixes a k :: nat
  assumes "a < 256" "k < 256"
  shows "a XOR k < 256"
proof -
  have "take_bit 8 a = a" "take_bit 8 k = k"
    using assms by (simp_all add: take_bit_nat_eq_self)
  then have "take_bit 8 (a XOR k) = a XOR k"
    by (simp add: take_bit_xor)
  then have "a XOR k < 2 ^ 8"
    by (simp only: take_bit_nat_eq_self_iff)
  then show ?thesis by simp
qed

lemma map_result_all_Inr:
  "(\<And>x. x \<in> set xs \<Longrightarrow> f x = Inr (g x)) \<Longrightarrow> map_result f xs = Inr (map g xs)"
  by (induction xs) simp_all

lemma unmask_total:
  assumes "n \<le> length masked"
  shows "unmask masked key n =
     Inr (map (\<lambda>i. char_of ((of_char (masked ! i) :: nat) XOR of_char (key ! (i mod 4)))) [0..<n])"
proof -
  let ?g = "\<lambda>i. (of_char (masked ! i) :: nat) XOR of_char (key ! (i mod 4))"
  have "map_result
          (\<lambda>i. if i < length masked
                then xor_py (of_char (masked ! i)) (of_char (key ! (i mod 4)))
                else Inl IndexError) [0..<n] = Inr (map ?g [0..<n])"
    using assms by (intro map_result_all_Inr) (simp add: xor_py_bitwise)
  moreover have "list_all (\<lambda>m. m < 256) (map ?g [0..<n])"
    by (simp add: list_all_iff xor_nat_less_256)
  ultimately show ?thesis
    by (simp add: unmask_def py_bytes_def comp_def)
qed

text \<open>
  C3. For byte values \<open>a\<close> and \<open>k\<close> (0..255) the \<^verbatim>\<open>xor\<close> helper returns their bitwise
  exclusive-or, and so the unmasking of a payload whose \<open>n\<close> bytes are present succeeds
  with \<open>n\<close> bytes, byte \<open>i\<close> being the masked byte \<open>i\<close> XOR the key byte \<open>i mod 4\<close>.
\<close>

theorem unmasking_is_bitwise_xor:
  "(\<forall>a k. a < 256 \<and> k < 256 \<longrightarrow> xor_py a k = Inr (a XOR k)) \<and>
   (\<forall>masked key n. n \<le> length masked \<longrightarrow>
      (\<exists>unmasked. unmask masked key n = Inr unmasked \<and> length unmasked = n \<and>
         (\<forall>i<n. (of_char (unmasked ! i) :: nat)
                   = of_char (masked ! i) XOR of_char (key ! (i mod 4)))))"
proof (intro conjI allI impI)
  fix a k :: nat
  assume "a < 256 \<and> k < 256"
  then show "xor_py a k = Inr (a XOR k)" by (simp add: xor_py_bitwise)
next
  fix masked key :: bytes and n :: nat
  assume n: "n \<le> length masked"
  let ?u = "map (\<lambda>i. char_of ((of_char (masked ! i) :: nat) XOR of_char (key ! (i mod 4)))) [0..<n]"
  have "\<forall>i<n. (of_char (?u ! i) :: nat) = of_char (masked ! i) XOR of_char (key ! (i mod 4))"
    by (simp add: xor_nat_less_256)
  then show "\<exists>unmasked. unmask masked key n = Inr unmasked \<and> length unmasked = n \<and>
         (\<forall>i<n. (of_char (unmasked ! i) :: nat)
                   = of_char (masked ! i) XOR of_char (key ! (i mod 4)))"
    using unmask_total [OF n, of key] by simp
qed

theorem unmasking_is_bitwise_xor_witness:
  "xor_py 170 255 = Inr 85 \<and>
   (\<exists>unmasked. unmask [CHR 0x7F, CHR 0x9F] [CHR 0x37, CHR 0xFA, CHR 0x21, CHR 0x3D] 2 = Inr unmasked
      \<and> length unmasked = 2
      \<and> (of_char (unmasked ! 0) :: nat) = 0x48 \<and> (of_char (unmasked ! 1) :: nat) = 0x65)"
proof -
  note claim = unmasking_is_bitwise_xor
  have "(170::nat) < 256 \<and> (255::nat) < 256" by simp
  with claim have "xor_py 170 255 = Inr (170 XOR 255)" by blast
  then have a: "xor_py 170 255 = Inr 85" by simp
  have "(2::nat) \<le> length [CHR 0x7F, CHR 0x9F]" by simp
  with claim obtain u where u: "unmask [CHR 0x7F, CHR 0x9F] [CHR 0x37, CHR 0xFA, CHR 0x21, CHR 0x3D] 2 = Inr u"
    "length u = 2"
    "\<forall>i<2. (of_char (u ! i) :: nat)
        = of_char ([CHR 0x7F, CHR 0x9F] ! i) XOR of_char ([CHR 0x37, CHR 0xFA, CHR 0x21, CHR 0x3D] ! (i mod 4))"
    by blast
  have "(of_char (u ! 0) :: nat) = 0x48"
    using u(3) [rule_format, of 0] by simp
  moreover have "(of_char (u ! 1) :: nat) = 0x65"
    using u(3) [rule_format, of 1] by simp
  ultimately have "(of_char (u ! 0) :: nat) = 0x48 \<and> (of_char (u ! 1) :: nat) = 0x65" by simp
  with a u(1,2) show ?thesis by blast
qed

section \<open>Feeding the header parser in slices\<close>

lemma fold_result_append:
  "fold_result f (xs @ ys) s =
     (case fold_result f xs s of Inl e \<Rightarrow> Inl e | Inr s' \<Rightarrow> fold_result f ys s')"
  by (induction xs arbitrary: s) (simp_all split: sum.splits)

lemma fold_result_map: "fold_result (\<lambda>i. f (h i)) is s = fold_result f (map h is) s"
  by (induction "is" arbitrary: s) (simp_all split: sum.splits)

lemma slice_one: "i < length xs \<Longrightarrow> slice xs (int i) (int i + 1) = [xs ! i]"
proof -
  assume i: "i < length xs"
  have a: "drop i (take (Suc i) xs) = [xs ! i]"
    using i by (simp add: take_Suc_conv_app_nth)
  have b: "nat (int i + 1) = Suc i" by simp
  have c: "norm_index (length xs) (int i) = i" "norm_index (length xs) (int i + 1) = Suc i"
    using i by (simp_all add: norm_index_def b)
  show ?thesis
    unfolding slice_def c by (rule a)
qed

lemma slices_of_bytes:
  "map (\<lambda>i. slice data (int i) (int i + 1)) [0..<length data] = map (\<lambda>c. [c]) data"
proof (rule nth_equalityI)
  show "length (map (\<lambda>i. slice data (int i) (int i + 1)) [0..<length data]) = length (map (\<lambda>c. [c]) data)"
    by simp
next
  fix i
  assume "i < length (map (\<lambda>i. slice data (int i) (int i + 1)) [0..<length data])"
  then have i: "i < length data" by simp
  then show "map (\<lambda>i. slice data (int i) (int i + 1)) [0..<length data] ! i = map (\<lambda>c. [c]) data ! i"
    by (simp add: slice_one)
qed

lemma finalise_next_header_raw:
  "finalise_next_header (p\<lparr>raw_headers := r\<rparr>) =
     (case finalise_next_header p of Inl e \<Rightarrow> Inl e | Inr p' \<Rightarrow> Inr (p'\<lparr>raw_headers := r\<rparr>))"
  by (simp add: finalise_next_header_def Let_def split: option.splits)

lemma finalise_next_header_keeps:
  assumes "finalise_next_header p = Inr p'"
  shows "raw_headers p' = raw_headers p" "parsing_data p' = parsing_data p"
    "parser_state p' = parser_state p" "parsing_sep_pos p' = parsing_sep_pos p"
    "parsing_header p' = parsing_header p" "next_header p' = next_header p"
  using assms
  by (auto simp add: finalise_next_header_def Let_def split: option.splits if_splits)

lemma parse_byte_step:
  "parse_byte up [ch] (p, n) =
     (case parse_step up ch p of Inl e \<Rightarrow> Inl e | Inr p' \<Rightarrow> Inr (p', n - 1))"
  by (simp add: parse_step_def parse_byte_def Let_def split: sum.splits list.splits)

lemma parse_step_raw:
  "parse_step up ch (p\<lparr>raw_headers := r\<rparr>) =
     (case parse_step up ch p of Inl e \<Rightarrow> Inl e | Inr p' \<Rightarrow> Inr (p'\<lparr>raw_headers := r\<rparr>))"
  by (simp add: parse_step_def parse_byte_def Let_def finalise_next_header_raw
      split: sum.splits list.splits)

lemma parse_step_keeps:
  assumes "parse_step up ch p = Inr p'"
  shows "raw_headers p' = raw_headers p" "parsing_data p' = parsing_data p"
  using assms
  by (auto simp add: parse_step_def parse_byte_def Let_def
      split: sum.splits list.splits if_splits dest: finalise_next_header_keeps(1,2))

lemma fold_parse_byte:
  "fold_result (\<lambda>c. parse_byte up [c]) data (p, n) =
     (case fold_result (parse_step up) data p of
        Inl e \<Rightarrow> Inl e
      | Inr p' \<Rightarrow> Inr (p', n - int (length data)))"
proof (induction data arbitrary: p n)
  case Nil
  show ?case by simp
next
  case (Cons c data)
  show ?case
    by (simp add: parse_byte_step Cons.IH split: sum.splits)
qed

lemma fold_parse_step_raw:
  "fold_result (parse_step up) data (p\<lparr>raw_headers := r\<rparr>) =
     (case fold_result (parse_step up) data p of
        Inl e \<Rightarrow> Inl e
      | Inr p' \<Rightarrow> Inr (p'\<lparr>raw_headers := r\<rparr>))"
proof (induction data arbitrary: p)
  case Nil
  show ?case by simp
next
  case (Cons c data)
  show ?case
    by (simp add: parse_step_raw Cons.IH split: sum.splits)
qed

lemma fold_parse_step_keeps:
  "fold_result (parse_step up) data p = Inr p' \<Longrightarrow>
     raw_headers p' = raw_headers p \<and> parsing_data p' = parsing_data p"
proof (induction data arbitrary: p)
  case Nil
  then show ?case by simp
next
  case (Cons c data)
  then show ?case
    by (auto split: sum.splits dest: parse_step_keeps)
qed

lemma parse_headers_fold:
  assumes "parsing_data p = None"
  shows "parse_headers up data p =
     (case fold_result (parse_step up) data p of
        Inl e \<Rightarrow> Inl e
      | Inr p' \<Rightarrow> Inr (p'\<lparr>raw_headers := raw_headers p @ data\<rparr>))"
proof -
  have "fold_result (\<lambda>i. parse_byte up (slice data (int i) (int i + 1))) [0..<length data] st
      = fold_result (\<lambda>c. parse_byte up [c]) data st" for st
    by (simp add: fold_result_map [of "parse_byte up" "\<lambda>i. slice data (int i) (int i + 1)"]
        fold_result_map [of "parse_byte up" "\<lambda>c. [c]"] slices_of_bytes)
  then show ?thesis
    using assms
    by (simp add: parse_headers_def Let_def fold_parse_byte fold_parse_step_raw split: sum.splits)
qed

lemma feed_slices_concat:
  "parsing_data p = None \<Longrightarrow> feed_slices up Hs p = parse_headers up (concat Hs) p"
proof (induction Hs arbitrary: p)
  case Nil
  then show ?case by (simp add: feed_slices_def parse_headers_fold)
next
  case (Cons h Hs)
  show ?case
  proof (cases "fold_result (parse_step up) h p")
    case (Inl e)
    then show ?thesis
      using Cons.prems by (simp add: feed_slices_def parse_headers_fold fold_result_append)
  next
    case (Inr p')
    let ?p1 = "p'\<lparr>raw_headers := raw_headers p @ h\<rparr>"
    from Inr have keep: "parsing_data p' = parsing_data p"
      by (simp add: fold_parse_step_keeps)
    with Cons.prems have none: "parsing_data ?p1 = None" by simp
    have "feed_slices up (h # Hs) p = feed_slices up Hs ?p1"
      using Cons.prems Inr by (simp add: feed_slices_def parse_headers_fold)
    also have "\<dots> = parse_headers up (concat Hs) ?p1"
      using none by (rule Cons.IH)
    also have "\<dots> = parse_headers up (concat (h # Hs)) p"
      using Cons.prems none Inr
      by (simp add: parse_headers_fold fold_result_append fold_parse_step_raw split: sum.splits)
    finally show ?thesis .
  qed
qed

text \<open>
  C2. Feeding a fresh parser the slices \<open>Hs\<close> of a header block, one \<^verbatim>\<open>parse_headers\<close> call
  per slice, gives the same outcome as one call on their concatenation: the same parser
  (method, version, path, query string, headers, upgrade fields and all other fields),
  or the same exception. It holds for every byte string, valid header blocks included,
  and for every \<open>urlparse\<close>.
\<close>

theorem chunked_feeding_equivalence:
  "feed_slices urlparse Hs HTTPParser_init = parse_headers urlparse (concat Hs) HTTPParser_init"
  by (rule feed_slices_concat) (simp add: HTTPParser_init_def)

theorem chunked_feeding_equivalence_witness:
  "feed_slices urlparse_origin_form
     [''GET / HT'', ''TP/1.1'' @ [CR, LF] @ ''Host: loc'',
      ''alhost:8000'' @ [CR, LF] @ ''Connection: keep-alive'' @ [CR, LF, CR], [LF]]
     HTTPParser_init
   = parse_headers urlparse_origin_form
       (''GET / HTTP/1.1'' @ [CR, LF] @ ''Host: localhost:8000'' @ [CR, LF]
          @ ''Connection: keep-alive'' @ [CR, LF, CR, LF])
       HTTPParser_init
   \<and> (case parse_headers urlparse_origin_form
            (''GET / HTTP/1.1'' @ [CR, LF] @ ''Host: localhost:8000'' @ [CR, LF]
               @ ''Connection: keep-alive'' @ [CR, LF, CR, LF])
            HTTPParser_init of
         Inl e \<Rightarrow> False
       | Inr p \<Rightarrow> is_complete p \<and> http_method p = Some ''GET'' \<and> http_version p = Some ''HTTP/1.1''
                 \<and> path p = Some ''/'' \<and> query_string p = Some []
                 \<and> headers p = [(''Host'', ''localhost:8000''), (''Connection'', ''keep-alive'')]
                 \<and> should_upgrade p = Some False \<and> upgrade_header p = None)"
proof
  show "feed_slices urlparse_origin_form
     [''GET / HT'', ''TP/1.1'' @ [CR, LF] @ ''Host: loc'',
      ''alhost:8000'' @ [CR, LF] @ ''Connection: keep-alive'' @ [CR, LF, CR], [LF]]
     HTTPParser_init
   = parse_headers urlparse_origin_form
       (''GET / HTTP/1.1'' @ [CR, LF] @ ''Host: localhost:8000'' @ [CR, LF]
          @ ''Connection: keep-alive'' @ [CR, LF, CR, LF])
       HTTPParser_init"
    using chunked_feeding_equivalence [of urlparse_origin_form
        "[''GET / HT'', ''TP/1.1'' @ [CR, LF] @ ''Host: loc'',
          ''alhost:8000'' @ [CR, LF] @ ''Connection: keep-alive'' @ [CR, LF, CR], [LF]]"]
    by simp
next
  show "case parse_headers urlparse_origin_form
            (''GET / HTTP/1.1'' @ [CR, LF] @ ''Host: localhost:8000'' @ [CR, LF]
               @ ''Connection: keep-alive'' @ [CR, LF, CR, LF])
            HTTPParser_init of
         Inl e \<Rightarrow> False
       | Inr p \<Rightarrow> is_complete p \<and> http_method p = Some ''GET'' \<and> http_version p = Some ''HTTP/1.1''
                 \<and> path p = Some ''/'' \<and> query_string p = Some []
                 \<and> headers p = [(''Host'', ''localhost:8000''), (''Connection'', ''keep-alive'')]
                 \<and> should_upgrade p = Some False \<and> upgrade_header p = None"
    by code_simp
qed

section \<open>The upgrade flag and the upgrade target\<close>

lemma find_snoc:
  "find P (xs @ [x]) = (case find P xs of None \<Rightarrow> (if P x then Some x else None) | Some y \<Rightarrow> Some y)"
  by (induction xs) simp_all

lemma find_None_dropWhile: "find P xs = None \<Longrightarrow> dropWhile (\<lambda>h. \<not> P h) xs = []"
  by (induction xs) (simp_all split: if_splits)

lemma find_Some_dropWhile:
  "find P xs = Some y \<Longrightarrow> dropWhile (\<lambda>h. \<not> P h) (xs @ [x]) = dropWhile (\<lambda>h. \<not> P h) xs @ [x]
     \<and> dropWhile (\<lambda>h. \<not> P h) xs \<noteq> []"
  by (induction xs) (simp_all split: if_splits)

lemma flag_snoc:
  "flag_of_headers (hs @ [h]) =
     (case flag_of_headers hs of
        None \<Rightarrow> (if is_connection h then Some (contains (lower (snd h)) ''upgrade'') else None)
      | Some v \<Rightarrow> Some v)"
  by (simp add: flag_of_headers_def find_snoc split: option.splits)

lemma find_None_dropWhile_snoc:
  "find P xs = None \<Longrightarrow> drop 1 (dropWhile (\<lambda>h. \<not> P h) (xs @ [x])) = []"
  by (induction xs) (simp_all split: if_splits)

lemma target_snoc_unset:
  assumes "flag_of_headers hs = None"
  shows "target_of_headers (hs @ [h]) = None"
proof -
  from assms have "find is_connection hs = None"
    by (simp add: flag_of_headers_def split: option.splits)
  then have "drop 1 (dropWhile (\<lambda>h. \<not> is_connection h) (hs @ [h])) = []"
    by (rule find_None_dropWhile_snoc)
  then show ?thesis
    by (simp add: target_of_headers_def)
qed

lemma target_snoc_no:
  "flag_of_headers hs = Some False \<Longrightarrow> target_of_headers (hs @ [h]) = None"
  by (simp add: target_of_headers_def flag_snoc)

lemma target_snoc_yes:
  assumes "flag_of_headers hs = Some True"
  shows "target_of_headers (hs @ [h]) =
     (case target_of_headers hs of None \<Rightarrow> (if is_upgrade h then Some h else None) | Some t \<Rightarrow> Some t)"
proof -
  from assms obtain y where y: "find is_connection hs = Some y"
    by (auto simp add: flag_of_headers_def split: option.splits)
  note d = find_Some_dropWhile [OF y, of h]
  from d have "drop 1 (dropWhile (\<lambda>h. \<not> is_connection h) (hs @ [h]))
      = drop 1 (dropWhile (\<lambda>h. \<not> is_connection h) hs) @ [h]"
    by (cases "dropWhile (\<lambda>h. \<not> is_connection h) hs") simp_all
  then show ?thesis
    using assms by (simp add: target_of_headers_def flag_snoc find_snoc)
qed

lemma finalise_upgrade_inv:
  assumes "upgrade_inv p" "finalise_next_header p = Inr p'"
  shows "upgrade_inv p'"
proof (cases "next_sep_pos p")
  case None
  with assms(2) show ?thesis by (simp add: finalise_next_header_def)
next
  case (Some sep)
  let ?h = "(slice (next_header p) 0 (sep - 1),
             slice (next_header p) (sep + 1) (int (length (next_header p)) - 2))"
  from assms(1) have f: "should_upgrade p = flag_of_headers (headers p)"
    and t: "upgrade_header p = target_of_headers (headers p)"
    by (simp_all add: upgrade_inv_def)
  show ?thesis
  proof (cases "should_upgrade p")
    case None
    with f have fl: "flag_of_headers (headers p) = None" by simp
    from None t fl have tn: "upgrade_header p = None"
      by (simp add: target_of_headers_def)
    show ?thesis
    proof (cases "is_connection ?h")
      case True
      with assms(2) \<open>next_sep_pos p = Some sep\<close> None
      have p': "p' = p\<lparr>should_upgrade := Some (contains (lower (snd ?h)) ''upgrade''),
                        headers := headers p @ [?h]\<rparr>"
        by (auto simp add: finalise_next_header_def Let_def is_connection_def split: if_splits)
      show ?thesis
        unfolding p' using True fl tn
        by (simp add: upgrade_inv_def flag_snoc target_snoc_unset)
    next
      case False
      with assms(2) \<open>next_sep_pos p = Some sep\<close> None
      have p': "p' = p\<lparr>headers := headers p @ [?h]\<rparr>"
        by (auto simp add: finalise_next_header_def Let_def is_connection_def split: if_splits)
      show ?thesis
        unfolding p' using False fl tn None
        by (simp add: upgrade_inv_def flag_snoc target_snoc_unset)
    qed
  next
    case (Some v)
    note sv = this
    show ?thesis
    proof (cases v)
      case True
      with sv f have fl: "flag_of_headers (headers p) = Some True" by simp
      from assms(2) \<open>next_sep_pos p = Some sep\<close> sv True t fl show ?thesis
        by (auto simp add: finalise_next_header_def Let_def upgrade_inv_def flag_snoc
            target_snoc_yes is_upgrade_def split: option.splits)
    next
      case False
      with sv f have fl: "flag_of_headers (headers p) = Some False" by simp
      from assms(2) \<open>next_sep_pos p = Some sep\<close> sv False t fl show ?thesis
        by (auto simp add: finalise_next_header_def Let_def upgrade_inv_def flag_snoc
            target_snoc_no target_of_headers_def)
    qed
  qed
qed

lemma finalise_flag_fixed:
  "finalise_next_header p = Inr p' \<Longrightarrow> should_upgrade p = Some v \<Longrightarrow> should_upgrade p' = Some v"
  by (auto simp add: finalise_next_header_def Let_def split: option.splits if_splits)

lemma finalise_target_fixed:
  "finalise_next_header p = Inr p' \<Longrightarrow> upgrade_header p = Some t \<Longrightarrow> upgrade_header p' = Some t"
  by (auto simp add: finalise_next_header_def Let_def split: option.splits if_splits)

lemma shape_other:
  assumes "parse_step up ch p = Inr p'" "ch \<noteq> LF"
  shows "headers p' = headers p \<and> should_upgrade p' = should_upgrade p
      \<and> upgrade_header p' = upgrade_header p"
  using assms by (auto simp add: parse_step_def parse_byte_def Let_def split: if_splits)

lemma shape_request_line:
  assumes "parse_step up LF p = Inr p'" "parser_state p \<noteq> PARSING_HEADERS"
  shows "headers p' = headers p \<and> should_upgrade p' = should_upgrade p
      \<and> upgrade_header p' = upgrade_header p"
  using assms
  by (auto simp add: parse_step_def parse_byte_def Let_def split: sum.splits list.splits)

lemma shape_blank:
  assumes "parse_step up LF p = Inr p'" "parser_state p = PARSING_HEADERS" "next_header p = []"
  shows "headers p' = headers p \<and> should_upgrade p' = should_upgrade p
      \<and> upgrade_header p' = upgrade_header p"
  using assms
  by (auto simp add: parse_step_def parse_byte_def Let_def split: if_splits)

lemma shape_finalise:
  assumes "parse_step up LF p = Inr p'" "parser_state p = PARSING_HEADERS" "next_header p \<noteq> []"
  shows "\<exists>q. finalise_next_header p = Inr q \<and> headers p' = headers q
      \<and> should_upgrade p' = should_upgrade q \<and> upgrade_header p' = upgrade_header q"
  using assms
  by (auto simp add: parse_step_def parse_byte_def Let_def split: sum.splits if_splits)

lemma parse_step_shape:
  assumes "parse_step up ch p = Inr p'"
  shows "\<exists>q. (q = p \<or> finalise_next_header p = Inr q) \<and> headers p' = headers q
               \<and> should_upgrade p' = should_upgrade q \<and> upgrade_header p' = upgrade_header q"
proof (cases "ch = LF")
  case False
  from shape_other [OF assms False] show ?thesis by (intro exI [of _ p]) simp
next
  case True
  with assms have lf: "parse_step up LF p = Inr p'" by simp
  show ?thesis
  proof (cases "parser_state p = PARSING_HEADERS")
    case False
    from shape_request_line [OF lf False] show ?thesis by (intro exI [of _ p]) simp
  next
    case True
    note st = this
    show ?thesis
    proof (cases "next_header p = []")
      case True
      from shape_blank [OF lf st True] show ?thesis by (intro exI [of _ p]) simp
    next
      case False
      from shape_finalise [OF lf st False] obtain q where
        "finalise_next_header p = Inr q" "headers p' = headers q"
        "should_upgrade p' = should_upgrade q" "upgrade_header p' = upgrade_header q"
        by (elim exE conjE)
      then show ?thesis by (intro exI [of _ q]) simp
    qed
  qed
qed

lemma upgrade_inv_fields:
  "headers p' = headers q \<Longrightarrow> should_upgrade p' = should_upgrade q \<Longrightarrow>
   upgrade_header p' = upgrade_header q \<Longrightarrow> upgrade_inv p' = upgrade_inv q"
  by (simp add: upgrade_inv_def)

lemma parse_step_upgrade_inv:
  assumes "upgrade_inv p" "parse_step up ch p = Inr p'"
  shows "upgrade_inv p'"
proof -
  from parse_step_shape [OF assms(2)] obtain q where
    q: "q = p \<or> finalise_next_header p = Inr q" and
    e: "headers p' = headers q" "should_upgrade p' = should_upgrade q"
       "upgrade_header p' = upgrade_header q"
    by (elim exE conjE)
  from q have "upgrade_inv q"
  proof
    assume "q = p"
    with assms(1) show ?thesis by simp
  next
    assume "finalise_next_header p = Inr q"
    with assms(1) show ?thesis by (rule finalise_upgrade_inv)
  qed
  with upgrade_inv_fields [OF e] show ?thesis by simp
qed

lemma parse_step_flag_fixed:
  assumes "parse_step up ch p = Inr p'" "should_upgrade p = Some v"
  shows "should_upgrade p' = Some v"
proof -
  from parse_step_shape [OF assms(1)] obtain q where
    q: "q = p \<or> finalise_next_header p = Inr q" and e: "should_upgrade p' = should_upgrade q"
    by (elim exE conjE)
  from q have "should_upgrade q = Some v"
  proof
    assume "q = p"
    with assms(2) show ?thesis by simp
  next
    assume "finalise_next_header p = Inr q"
    then show ?thesis using assms(2) by (rule finalise_flag_fixed)
  qed
  with e show ?thesis by simp
qed

lemma fold_parse_step_upgrade_inv:
  "upgrade_inv p \<Longrightarrow> fold_result (parse_step up) data p = Inr p' \<Longrightarrow> upgrade_inv p'"
proof (induction data arbitrary: p)
  case Nil
  then show ?case by simp
next
  case (Cons c data)
  from Cons.prems(2) obtain p1 where s: "parse_step up c p = Inr p1"
    and r: "fold_result (parse_step up) data p1 = Inr p'"
    by (auto split: sum.splits)
  from Cons.prems(1) s have "upgrade_inv p1" by (rule parse_step_upgrade_inv)
  then show ?case using r by (rule Cons.IH)
qed

lemma fold_parse_step_flag_fixed:
  "fold_result (parse_step up) data p = Inr p' \<Longrightarrow> should_upgrade p = Some v \<Longrightarrow>
     should_upgrade p' = Some v"
proof (induction data arbitrary: p)
  case Nil
  then show ?case by simp
next
  case (Cons c data)
  from Cons.prems(1) obtain p1 where s: "parse_step up c p = Inr p1"
    and r: "fold_result (parse_step up) data p1 = Inr p'"
    by (auto split: sum.splits)
  from s Cons.prems(2) have "should_upgrade p1 = Some v" by (rule parse_step_flag_fixed)
  with r show ?case by (rule Cons.IH)
qed

lemma parse_headers_upgrade_inv:
  assumes "parsing_data p = None" "upgrade_inv p" "parse_headers up data p = Inr p'"
  shows "upgrade_inv p' \<and> parsing_data p' = None"
proof -
  from assms(1,3) obtain q where q: "fold_result (parse_step up) data p = Inr q"
    and p': "p' = q\<lparr>raw_headers := raw_headers p @ data\<rparr>"
    by (auto simp add: parse_headers_fold split: sum.splits)
  from assms(2) q have "upgrade_inv q" by (rule fold_parse_step_upgrade_inv)
  moreover from q assms(1) have "parsing_data q = None" by (simp add: fold_parse_step_keeps)
  ultimately show ?thesis by (simp add: p' upgrade_inv_def)
qed

lemma parse_headers_flag_fixed:
  assumes "parsing_data p = None" "parse_headers up data p = Inr p'" "should_upgrade p = Some v"
  shows "should_upgrade p' = Some v"
proof -
  from assms(1,2) obtain q where q: "fold_result (parse_step up) data p = Inr q"
    and p': "p' = q\<lparr>raw_headers := raw_headers p @ data\<rparr>"
    by (auto simp add: parse_headers_fold split: sum.splits)
  from q assms(3) have "should_upgrade q = Some v" by (rule fold_parse_step_flag_fixed)
  then show ?thesis by (simp add: p')
qed

lemma feed_slices_upgrade_inv:
  "parsing_data p = None \<Longrightarrow> upgrade_inv p \<Longrightarrow> feed_slices up Hs p = Inr p' \<Longrightarrow>
     upgrade_inv p' \<and> parsing_data p' = None"
proof (induction Hs arbitrary: p)
  case Nil
  then show ?case by (simp add: feed_slices_def)
next
  case (Cons h Hs)
  from Cons.prems(3) obtain p1 where s: "parse_headers up h p = Inr p1"
    and r: "feed_slices up Hs p1 = Inr p'"
    by (auto simp add: feed_slices_def split: sum.splits)
  from parse_headers_upgrade_inv [OF Cons.prems(1,2) s]
  have "parsing_data p1 = None" "upgrade_inv p1" by simp_all
  then show ?case using r by (rule Cons.IH)
qed

lemma upgrade_inv_init: "upgrade_inv HTTPParser_init"
  by (simp add: upgrade_inv_def HTTPParser_init_def flag_of_headers_def target_of_headers_def)

text \<open>
  The upgrade fields are functions of the list of headers the parser has completed: the
  flag of a fresh parser is unset, after any sequence of slices it is the value decided by
  the first completed header whose lowercased name is \<^verbatim>\<open>connection\<close>, once set it never
  changes, and the target is the first header named \<^verbatim>\<open>upgrade\<close> completed after that
  header when the flag is yes, and \<open>None\<close> otherwise. The name and the value meant
  are the ones \<^verbatim>\<open>parse_headers\<close> sliced out of the header line.
\<close>

theorem upgrade_flag_invariant:
  "should_upgrade HTTPParser_init = None \<and> upgrade_header HTTPParser_init = None \<and>
   (\<forall>Hs p. feed_slices urlparse Hs HTTPParser_init = Inr p \<longrightarrow>
       should_upgrade p = flag_of_headers (headers p)
     \<and> upgrade_header p = target_of_headers (headers p)
     \<and> (should_upgrade p \<noteq> Some True \<longrightarrow> upgrade_header p = None)
     \<and> (\<forall>more p' v. should_upgrade p = Some v \<and> parse_headers urlparse more p = Inr p'
            \<longrightarrow> should_upgrade p' = Some v))"
proof (intro conjI allI impI)
  show "should_upgrade HTTPParser_init = None" by (simp add: HTTPParser_init_def)
  show "upgrade_header HTTPParser_init = None" by (simp add: HTTPParser_init_def)
next
  fix Hs p
  assume f: "feed_slices urlparse Hs HTTPParser_init = Inr p"
  have "parsing_data HTTPParser_init = None" by (simp add: HTTPParser_init_def)
  from feed_slices_upgrade_inv [OF this upgrade_inv_init f]
  have inv: "upgrade_inv p" and pd: "parsing_data p = None" by simp_all
  from inv show a: "should_upgrade p = flag_of_headers (headers p)"
    and b: "upgrade_header p = target_of_headers (headers p)"
    by (simp_all add: upgrade_inv_def)
  {
    assume "should_upgrade p \<noteq> Some True"
    with a b show "upgrade_header p = None" by (simp add: target_of_headers_def)
  }
  {
    fix more p' v
    assume "should_upgrade p = Some v \<and> parse_headers urlparse more p = Inr p'"
    then show "should_upgrade p' = Some v"
      using parse_headers_flag_fixed [OF pd, of urlparse more p' v] by simp
  }
qed

theorem upgrade_flag_invariant_witness:
  "(\<exists>p. feed_slices urlparse_origin_form
           [''GET /ws HTTP/1.1'' @ [CR, LF] @ ''Connection: keep-alive, upgrade'' @ [CR, LF]
              @ ''Upgrade: websocket'' @ [CR, LF, CR, LF]] HTTPParser_init = Inr p
        \<and> should_upgrade p = flag_of_headers (headers p)
        \<and> upgrade_header p = target_of_headers (headers p)
        \<and> should_upgrade p = Some True \<and> upgrade_header p = Some (''Upgrade'', ''websocket''))
   \<and> (\<exists>p. feed_slices urlparse_origin_form
           [''GET / HTTP/1.1'' @ [CR, LF] @ ''Connection: keep-alive'' @ [CR, LF]
              @ ''Upgrade: websocket'' @ [CR, LF, CR, LF]] HTTPParser_init = Inr p
        \<and> should_upgrade p = flag_of_headers (headers p)
        \<and> upgrade_header p = target_of_headers (headers p)
        \<and> should_upgrade p = Some False \<and> upgrade_header p = None)"
proof -
  note claim = upgrade_flag_invariant [of urlparse_origin_form]
  let ?U = "[''GET /ws HTTP/1.1'' @ [CR, LF] @ ''Connection: keep-alive, upgrade'' @ [CR, LF]
              @ ''Upgrade: websocket'' @ [CR, LF, CR, LF]]"
  let ?N = "[''GET / HTTP/1.1'' @ [CR, LF] @ ''Connection: keep-alive'' @ [CR, LF]
              @ ''Upgrade: websocket'' @ [CR, LF, CR, LF]]"
  have "case feed_slices urlparse_origin_form ?U HTTPParser_init of
          Inl e \<Rightarrow> False
        | Inr p \<Rightarrow> should_upgrade p = Some True \<and> upgrade_header p = Some (''Upgrade'', ''websocket'')"
    by code_simp
  then obtain p where p: "feed_slices urlparse_origin_form ?U HTTPParser_init = Inr p"
    "should_upgrade p = Some True" "upgrade_header p = Some (''Upgrade'', ''websocket'')"
    by (cases "feed_slices urlparse_origin_form ?U HTTPParser_init") simp_all
  from claim p(1) have "should_upgrade p = flag_of_headers (headers p)"
    "upgrade_header p = target_of_headers (headers p)" by blast+
  with p have u: "\<exists>p. feed_slices urlparse_origin_form ?U HTTPParser_init = Inr p
        \<and> should_upgrade p = flag_of_headers (headers p)
        \<and> upgrade_header p = target_of_headers (headers p)
        \<and> should_upgrade p = Some True \<and> upgrade_header p = Some (''Upgrade'', ''websocket'')"
    by blast
  have "case feed_slices urlparse_origin_form ?N HTTPParser_init of
          Inl e \<Rightarrow> False
        | Inr p \<Rightarrow> should_upgrade p = Some False \<and> upgrade_header p = None"
    by code_simp
  then obtain q where q: "feed_slices urlparse_origin_form ?N HTTPParser_init = Inr q"
    "should_upgrade q = Some False" "upgrade_header q = None"
    by (cases "feed_slices urlparse_origin_form ?N HTTPParser_init") simp_all
  from claim q(1) have "should_upgrade q = flag_of_headers (headers q)"
    "upgrade_header q = target_of_headers (headers q)" by blast+
  with q have n: "\<exists>p. feed_slices urlparse_origin_form ?N HTTPParser_init = Inr p
        \<and> should_upgrade p = flag_of_headers (headers p)
        \<and> upgrade_header p = target_of_headers (headers p)
        \<and> should_upgrade p = Some False \<and> upgrade_header p = None"
    by blast
  from u n show ?thesis by (rule conjI)
qed

text \<open>
  C10. The claim holds of the sliced headers, as above, but not of the header block fed:
  the value is sliced from the second byte after the colon, whatever the first is. On
  the request \<^verbatim>\<open>GET /ws HTTP/1.1\<close>, \<^verbatim>\<open>Connection:Upgrade\<close>, \<^verbatim>\<open>Upgrade: websocket\<close> the
  parser records the value \<^verbatim>\<open>pgrade\<close>, sets the upgrade flag to no and records no
  upgrade target, although the lowercased value of the Connection header contains
  \<^verbatim>\<open>upgrade\<close>.
\<close>

theorem connection_value_sliced_past_colon:
  "(case parse_headers urlparse_origin_form
           (''GET /ws HTTP/1.1'' @ [CR, LF] @ ''Connection:Upgrade'' @ [CR, LF]
              @ ''Upgrade: websocket'' @ [CR, LF, CR, LF])
           HTTPParser_init of
      Inl e \<Rightarrow> False
    | Inr p \<Rightarrow>
        is_complete p
        \<and> headers p = [(''Connection'', ''pgrade''), (''Upgrade'', ''websocket'')]
        \<and> should_upgrade p = Some False
        \<and> upgrade_header p = None)
   \<and> contains (lower ''Upgrade'') ''upgrade''"
  by code_simp

section \<open>The server-frame encoder\<close>

lemma text_header: "int_base2 (dec_digits 1 @ dec_digits 0 @ dec_digits 0 @ dec_digits 0 @ format_04 (opcode_value TEXT)) = Inr 129"
  by code_simp

lemma get_frame_content_text:
  assumes "length payload_bytes < 256"
  shows "get_frame_content (BytesPayload payload_bytes) TEXT 1 0 0 0
           = Inr ([CHR 0x81, char_of (length payload_bytes)] @ payload_bytes)"
proof -
  have "char_of (129 :: nat) = CHR 0x81" by code_simp
  then show ?thesis
    unfolding get_frame_content_def Let_def text_header
    using assms by (simp add: py_bytes_def)
qed

lemma spec_frame_short:
  "length payload_bytes \<le> 125 \<Longrightarrow>
   spec_server_frame TEXT payload_bytes = [CHR 0x81, char_of (length payload_bytes)] @ payload_bytes"
proof -
  assume "length payload_bytes \<le> 125"
  moreover have "char_of (129 :: nat) = CHR 0x81" by code_simp
  ultimately show ?thesis by (simp add: spec_server_frame_def Let_def)
qed



lemma length_be_bytes: "length (be_bytes k n) = k"
  by (simp add: be_bytes_def)

text \<open>
  The encoder on a text payload of 126 bytes: it writes the length into the second byte
  and has no extended-length form, so the frame is not the one the specification asks for.
\<close>

theorem encoder_has_no_extended_length:
  "get_frame_content (BytesPayload (replicate 126 (CHR ''a''))) TEXT 1 0 0 0
     \<noteq> Inr (spec_server_frame TEXT (replicate 126 (CHR ''a'')))"
proof
  assume eq: "get_frame_content (BytesPayload (replicate 126 (CHR ''a''))) TEXT 1 0 0 0
     = Inr (spec_server_frame TEXT (replicate 126 (CHR ''a'')))"
  have "get_frame_content (BytesPayload (replicate 126 (CHR ''a''))) TEXT 1 0 0 0
      = Inr ([CHR 0x81, char_of (length (replicate 126 (CHR ''a'')))] @ replicate 126 (CHR ''a''))"
    by (rule get_frame_content_text) simp
  with eq have "spec_server_frame TEXT (replicate 126 (CHR ''a''))
      = [CHR 0x81, char_of (length (replicate 126 (CHR ''a'')))] @ replicate 126 (CHR ''a'')"
    by simp
  then have "length (spec_server_frame TEXT (replicate 126 (CHR ''a''))) = 128"
    by simp
  moreover have "length (spec_server_frame TEXT (replicate 126 (CHR ''a''))) = 130"
    by (simp add: spec_server_frame_def Let_def length_be_bytes)
  ultimately show False by simp
qed

text \<open>
  The encoder formats the opcode with \<^verbatim>\<open>:04\<close> (decimal digits) and reads the header
  string in base 2: the opcodes 2, 8 and 9 give a string that is no binary numeral
  (\<open>ValueError\<close>), and the opcode 10 gives \<^verbatim>\<open>0010\<close>, the binary opcode.
\<close>

theorem encoder_formats_opcode_in_decimal:
  "get_frame_content (BytesPayload ''hi'') BINARY 1 0 0 0 = Inl ValueError
   \<and> get_frame_content (BytesPayload ''hi'') CLOSE 1 0 0 0 = Inl ValueError
   \<and> get_frame_content (BytesPayload ''hi'') PING 1 0 0 0 = Inl ValueError
   \<and> get_frame_content (BytesPayload ''hi'') PONG 1 0 0 0 = Inr [CHR 0x82, CHR 0x02, CHR ''h'', CHR ''i'']
   \<and> spec_server_frame PONG ''hi'' = [CHR 0x8A, CHR 0x02, CHR ''h'', CHR ''i'']"
  by code_simp

text \<open>
  C5 fails as stated at two inputs: a text payload of 126 bytes (no extended length), and
  a two-byte payload with the opcode Pong (the header byte is 0x82, not 0x8A).
\<close>

theorem encoder_differs_from_rfc_frame:
  "get_frame_content (BytesPayload (replicate 126 (CHR ''a''))) TEXT 1 0 0 0
     \<noteq> Inr (spec_server_frame TEXT (replicate 126 (CHR ''a'')))
   \<and> get_frame_content (BytesPayload ''hi'') PONG 1 0 0 0 \<noteq> Inr (spec_server_frame PONG ''hi'')"
proof
  show "get_frame_content (BytesPayload (replicate 126 (CHR ''a''))) TEXT 1 0 0 0
     \<noteq> Inr (spec_server_frame TEXT (replicate 126 (CHR ''a'')))"
    by (rule encoder_has_no_extended_length)
next
  have "get_frame_content (BytesPayload ''hi'') PONG 1 0 0 0 = Inr [CHR 0x82, CHR 0x02, CHR ''h'', CHR ''i'']"
    and "spec_server_frame PONG ''hi'' = [CHR 0x8A, CHR 0x02, CHR ''h'', CHR ''i'']"
    using encoder_formats_opcode_in_decimal by simp_all
  then show "get_frame_content (BytesPayload ''hi'') PONG 1 0 0 0 \<noteq> Inr (spec_server_frame PONG ''hi'')"
    by simp
qed

text \<open>
  C5, as amended. For the opcode Text and every payload of at most 125 bytes, the encoder
  returns the server frame of the specification: the byte 0x81 (FIN set, RSV clear, opcode 1),
  the payload length in the second byte (below 128, so the MASK bit is clear), and the
  payload unmasked.
\<close>

theorem text_frame_encoding:
  assumes "length payload_bytes \<le> 125"
  shows "get_frame_content (BytesPayload payload_bytes) TEXT 1 0 0 0
           = Inr (spec_server_frame TEXT payload_bytes)
       \<and> spec_server_frame TEXT payload_bytes
           = [CHR 0x81, char_of (length payload_bytes)] @ payload_bytes"
proof -
  from assms have lt: "length payload_bytes < 256" by simp
  have a: "get_frame_content (BytesPayload payload_bytes) TEXT 1 0 0 0
      = Inr ([CHR 0x81, char_of (length payload_bytes)] @ payload_bytes)"
    using lt by (rule get_frame_content_text)
  have b: "spec_server_frame TEXT payload_bytes
      = [CHR 0x81, char_of (length payload_bytes)] @ payload_bytes"
    using assms by (rule spec_frame_short)
  show ?thesis
    unfolding b a by (simp only: simp_thms)
qed

theorem text_frame_encoding_witness:
  "length ''hi'' \<le> 125
   \<and> get_frame_content (BytesPayload ''hi'') TEXT 1 0 0 0 = Inr [CHR 0x81, CHR 0x02, CHR ''h'', CHR ''i'']
   \<and> spec_server_frame TEXT ''hi'' = [CHR 0x81, CHR 0x02, CHR ''h'', CHR ''i'']"
proof -
  have l: "length ''hi'' \<le> 125" by simp
  have c: "char_of (length ''hi'') = CHR 0x02" by code_simp
  from text_frame_encoding [OF l] l show ?thesis
    unfolding c by simp
qed

section \<open>Errors raised on bytes from the peer\<close>

lemma bits_msb_add: "bits_msb (a + b) n = bits_msb a (n div 2 ^ b) @ bits_msb b n"
proof (induction b arbitrary: n)
  case 0
  show ?case by simp
next
  case (Suc b)
  have "n div 2 div 2 ^ b = n div 2 ^ Suc b"
    by (simp add: div_mult2_eq)
  with Suc [of "n div 2"] show ?case by simp
qed

lemma horner2_bits_msb: "horner2 (bits_msb w n) = n mod 2 ^ w"
proof (induction w arbitrary: n)
  case 0
  show ?case by (simp add: horner2_def)
next
  case (Suc w)
  have "n mod (2 * 2 ^ w) = 2 * (n div 2 mod 2 ^ w) + n mod 2"
    by (rule mod_mult2_eq)
  with Suc [of "n div 2"] show ?case
    by (simp add: horner2_snoc bit_char_def)
qed

lemma bits_msb_binary_digits: "list_all (\<lambda>c. c = CHR ''0'' \<or> c = CHR ''1'') (bits_msb w n)"
  by (induction w arbitrary: n) (simp_all add: bit_char_def)

lemma int_base2_bits_msb: "0 < w \<Longrightarrow> int_base2 (bits_msb w n) = Inr (n mod 2 ^ w)"
proof -
  assume "0 < w"
  then have "bits_msb w n \<noteq> []"
    using length_bits_msb [of w n] by (cases "bits_msb w n") simp_all
  then show ?thesis
    using bits_msb_binary_digits [of w n] horner2_bits_msb [of w n]
    by (simp add: int_base2_def horner2_def)
qed

lemma take_drop_bits_msb:
  assumes "i \<le> j" "j \<le> 8"
  shows "drop i (take j (bits_msb 8 n)) = bits_msb (j - i) (n div 2 ^ (8 - j))"
proof -
  have "bits_msb 8 n = bits_msb (j + (8 - j)) n" using assms by simp
  also have "\<dots> = bits_msb j (n div 2 ^ (8 - j)) @ bits_msb (8 - j) n" by (rule bits_msb_add)
  finally have "take j (bits_msb 8 n) = bits_msb j (n div 2 ^ (8 - j))"
    by (simp add: length_bits_msb)
  also have "bits_msb j (n div 2 ^ (8 - j)) = bits_msb (i + (j - i)) (n div 2 ^ (8 - j))"
    using assms by simp
  also have "\<dots> = bits_msb i (n div 2 ^ (8 - j) div 2 ^ (j - i)) @ bits_msb (j - i) (n div 2 ^ (8 - j))"
    by (rule bits_msb_add)
  finally show ?thesis by (simp add: length_bits_msb)
qed

lemma frame_field:
  assumes "i < j" "j \<le> 8"
  shows "int_base2 (slice (bits_msb 8 n) (int i) (int j)) = Inr (n div 2 ^ (8 - j) mod 2 ^ (j - i))"
proof -
  have "slice (bits_msb 8 n) (int i) (int j) = drop i (take j (bits_msb 8 n))"
    using assms by (simp add: slice_def norm_index_def length_bits_msb)
  also have "\<dots> = bits_msb (j - i) (n div 2 ^ (8 - j))"
    using assms by (intro take_drop_bits_msb) simp_all
  finally show ?thesis using assms by (simp add: int_base2_bits_msb)
qed

lemma head_frame_values:
  assumes "b < 256"
  shows "get_frame_values b HEAD_FRAME_INDEXES
           = Inr [b div 128 mod 2, b div 64 mod 2, b div 32 mod 2, b div 16 mod 2, b mod 16]"
  using assms frame_field [of 0 1 b] frame_field [of 1 2 b] frame_field [of 2 3 b]
    frame_field [of 3 4 b] frame_field [of 4 8 b]
  by (simp add: get_frame_values_def HEAD_FRAME_INDEXES_def format_08b_bits)

lemma mask_frame_values:
  assumes "b < 256"
  shows "get_frame_values b MASK_AND_PAYLOAD_LEN_FRAME_INDEXES = Inr [b div 128 mod 2, b mod 128]"
  using assms frame_field [of 0 1 b] frame_field [of 1 8 b]
  by (simp add: get_frame_values_def MASK_AND_PAYLOAD_LEN_FRAME_INDEXES_def format_08b_bits)

lemma parse_initial_bytes_fields:
  assumes "b1 < 256" "b2 < 256"
  shows "parse_initial_bytes b1 b2 =
     (case WebSocketOpcode_of (b1 mod 16) of
        Inl e \<Rightarrow> Inl e
      | Inr opcode \<Rightarrow>
          (if b1 mod 16 > 7 \<and> b1 div 128 mod 2 = 0 then
             Inl (WebSocketError PROTOCOL_ERROR ''Control frame is fragmented.'')
           else if b1 mod 16 > 7 \<and> b2 mod 128 > 125 then
             Inl (WebSocketError PROTOCOL_ERROR ''Control frame payload greater than 125 bytes.'')
           else if b2 div 128 mod 2 \<noteq> 1 then
             Inl (WebSocketError PROTOCOL_ERROR ''Frame mask missing.'')
           else
             Inr (if b2 mod 128 \<le> 125 then MASKING_KEY else PAYLOAD_LENGTH,
                  \<lparr> l_opcode = opcode, l_is_control_frame = (b1 mod 16 > 7),
                    l_payload_len = b2 mod 128 \<rparr>)))"
  unfolding parse_initial_bytes_def head_frame_values [OF assms(1)] mask_frame_values [OF assms(2)]
  by (simp add: Let_def split: sum.splits)

lemma parse_frame_header_error:
  assumes "parse_initial_bytes (of_char c1) (of_char c2) = Inl e"
  shows "parse_frame ext (c1 # c2 # rest) (INITIAL_BYTES, c) = Inl e"
  using assms by (simp add: parse_frame_def)

lemma parse_step_request_byte:
  "ch \<noteq> LF \<Longrightarrow> parser_state p = PARSING_REQUEST \<Longrightarrow>
     parse_step up ch p = Inr (p\<lparr>parsing_header := parsing_header p @ [ch]\<rparr>)"
  by (simp add: parse_step_def parse_byte_def Let_def)

lemma fold_request_line:
  "LF \<notin> set line \<Longrightarrow> parser_state p = PARSING_REQUEST \<Longrightarrow>
     fold_result (parse_step up) line p = Inr (p\<lparr>parsing_header := parsing_header p @ line\<rparr>)"
proof (induction line arbitrary: p)
  case Nil
  show ?case by simp
next
  case (Cons ch line)
  from Cons.prems have ch: "ch \<noteq> LF" and rest: "LF \<notin> set line" by auto
  have st: "parser_state (p\<lparr>parsing_header := parsing_header p @ [ch]\<rparr>) = PARSING_REQUEST"
    using Cons.prems(2) by simp
  show ?case
    using Cons.IH [OF rest st] by (simp add: parse_step_request_byte [OF ch Cons.prems(2)])
qed

lemma not_three_fields:
  "length xs \<noteq> 3 \<Longrightarrow>
     (case xs of [a, b, c] \<Rightarrow> f a b c | _ \<Rightarrow> d) = d"
  by (auto split: list.splits)

lemma request_line_not_three_fields:
  assumes "parser_state p = PARSING_REQUEST" "parsing_header p = line"
    and "list_all (\<lambda>c. (of_char c :: nat) < 128) line"
    and "length (split_on CHR '' '' (strip str_isspace (line @ [LF]))) \<noteq> 3"
  shows "parse_step up LF p = Inl ValueError"
proof -
  have d: "decode_ascii (line @ [LF]) = Inr (line @ [LF])"
    using assms(3) by (simp add: decode_ascii_def)
  from assms(4) have "(case split_on CHR '' '' (strip str_isspace (line @ [LF])) of
      [method, target, version] \<Rightarrow> f method target version | _ \<Rightarrow> Inl ValueError) = Inl ValueError"
    for f :: "string \<Rightarrow> string \<Rightarrow> string \<Rightarrow> error + HTTPParser \<times> int"
    by (rule not_three_fields)
  then show ?thesis
    using assms(1,2) by (simp add: parse_step_def parse_byte_def Let_def d)
qed

lemma malformed_request_line:
  assumes "LF \<notin> set line" "list_all (\<lambda>c. (of_char c :: nat) < 128) line"
    and "length (split_on CHR '' '' (strip str_isspace (line @ [LF]))) \<noteq> 3"
  shows "parse_headers up (line @ [LF] @ remaining) HTTPParser_init = Inl ValueError"
proof -
  let ?p = "HTTPParser_init\<lparr>parsing_header := parsing_header HTTPParser_init @ line\<rparr>"
  have i: "parser_state HTTPParser_init = PARSING_REQUEST" "parsing_data HTTPParser_init = None"
    by (simp_all add: HTTPParser_init_def)
  have f: "fold_result (parse_step up) line HTTPParser_init = Inr ?p"
    using assms(1) i(1) by (rule fold_request_line)
  have "parser_state ?p = PARSING_REQUEST" "parsing_header ?p = line"
    by (simp_all add: HTTPParser_init_def)
  then have s: "parse_step up LF ?p = Inl ValueError"
    using assms(2,3) by (rule request_line_not_three_fields)
  have "fold_result (parse_step up) (line @ [LF] @ remaining) HTTPParser_init = Inl ValueError"
    by (simp add: fold_result_append f s)
  then show ?thesis
    by (simp add: parse_headers_fold [OF i(2)])
qed


lemma div_128_of_byte:
  fixes n :: nat
  assumes "n < 256"
  shows "n div 128 mod 2 = (if n < 128 then 0 else 1)"
proof (cases "n < 128")
  case True
  then show ?thesis by simp
next
  case False
  then obtain m where m: "n = 128 + m" using le_Suc_ex [of 128 n] by auto
  with assms have "m < 128" by simp
  then show ?thesis using False m by simp
qed

text \<open>
  C1 fails as stated: the request line \<^verbatim>\<open>GET /\<close> has two fields, and \<^verbatim>\<open>parse_headers\<close>
  raises Python's \<open>ValueError\<close> from the tuple unpacking, which is none of the named errors.
\<close>

theorem peer_input_unnamed_exception:
  "parse_headers urlparse_origin_form (''GET /'' @ [CR, LF]) HTTPParser_init = Inl ValueError
   \<and> \<not> named_error ValueError"
  by code_simp

text \<open>
  C1, as amended. On the first two bytes of a frame, the three violations the decoder
  checks raise the named \<open>WebSocketError\<close> with the close code \<open>PROTOCOL_ERROR\<close> (1002):
  a control frame (opcode 8, 9 or 10) with FIN clear, a control frame with FIN set whose
  7-bit length exceeds 125, and an otherwise accepted frame with MASK clear. An opcode
  nibble outside 1, 2, 8, 9, 10 raises \<open>ValueError\<close> from the opcode enumeration, and
  a request line of ASCII bytes that does not split into exactly three fields raises
  \<open>ValueError\<close> from the unpacking; \<open>ValueError\<close> is not a named error.
\<close>

theorem peer_input_errors:
  "(of_char c1 mod 16 \<notin> {1, 2, 8, 9, 10 :: nat} \<longrightarrow>
      parse_frame ext (c1 # c2 # rest) (INITIAL_BYTES, c) = Inl ValueError)
   \<and> (of_char c1 mod 16 \<in> {8, 9, 10 :: nat} \<and> (of_char c1 :: nat) < 128 \<longrightarrow>
      parse_frame ext (c1 # c2 # rest) (INITIAL_BYTES, c)
        = Inl (WebSocketError PROTOCOL_ERROR ''Control frame is fragmented.''))
   \<and> (of_char c1 mod 16 \<in> {8, 9, 10 :: nat} \<and> (of_char c1 :: nat) \<ge> 128
        \<and> (of_char c2 :: nat) mod 128 > 125 \<longrightarrow>
      parse_frame ext (c1 # c2 # rest) (INITIAL_BYTES, c)
        = Inl (WebSocketError PROTOCOL_ERROR ''Control frame payload greater than 125 bytes.''))
   \<and> (of_char c1 mod 16 \<in> {1, 2 :: nat} \<and> (of_char c2 :: nat) < 128 \<longrightarrow>
      parse_frame ext (c1 # c2 # rest) (INITIAL_BYTES, c)
        = Inl (WebSocketError PROTOCOL_ERROR ''Frame mask missing.''))
   \<and> (of_char c1 mod 16 \<in> {8, 9, 10 :: nat} \<and> (of_char c1 :: nat) \<ge> 128
        \<and> (of_char c2 :: nat) \<le> 125 \<longrightarrow>
      parse_frame ext (c1 # c2 # rest) (INITIAL_BYTES, c)
        = Inl (WebSocketError PROTOCOL_ERROR ''Frame mask missing.''))
   \<and> (LF \<notin> set line \<and> list_all (\<lambda>ch. (of_char ch :: nat) < 128) line
        \<and> length (split_on CHR '' '' (strip str_isspace (line @ [LF]))) \<noteq> 3 \<longrightarrow>
      parse_headers urlparse (line @ [LF] @ remaining) HTTPParser_init = Inl ValueError)
   \<and> named_error (WebSocketError PROTOCOL_ERROR reason)
   \<and> close_code_value PROTOCOL_ERROR = 1002
   \<and> \<not> named_error ValueError"
proof -
  have b: "(of_char c1 :: nat) < 256" "(of_char c2 :: nat) < 256" by simp_all
  note pib = parse_initial_bytes_fields [OF b]
  have fin: "(of_char c1 :: nat) div 128 mod 2 = (if (of_char c1 :: nat) < 128 then 0 else 1)"
    using b(1) by (rule div_128_of_byte)
  have msk: "(of_char c2 :: nat) div 128 mod 2 = (if (of_char c2 :: nat) < 128 then 0 else 1)"
    using b(2) by (rule div_128_of_byte)
  have 1: "parse_frame ext (c1 # c2 # rest) (INITIAL_BYTES, c) = Inl ValueError"
    if "of_char c1 mod 16 \<notin> {1, 2, 8, 9, 10 :: nat}"
    using that by (intro parse_frame_header_error) (simp add: pib WebSocketOpcode_of_def)
  have 2: "parse_frame ext (c1 # c2 # rest) (INITIAL_BYTES, c)
        = Inl (WebSocketError PROTOCOL_ERROR ''Control frame is fragmented.'')"
    if "of_char c1 mod 16 \<in> {8, 9, 10 :: nat} \<and> (of_char c1 :: nat) < 128"
    using that by (intro parse_frame_header_error) (auto simp add: pib WebSocketOpcode_of_def fin)
  have 3: "parse_frame ext (c1 # c2 # rest) (INITIAL_BYTES, c)
        = Inl (WebSocketError PROTOCOL_ERROR ''Control frame payload greater than 125 bytes.'')"
    if "of_char c1 mod 16 \<in> {8, 9, 10 :: nat} \<and> (of_char c1 :: nat) \<ge> 128
        \<and> (of_char c2 :: nat) mod 128 > 125"
    using that by (intro parse_frame_header_error) (auto simp add: pib WebSocketOpcode_of_def fin)
  have 4: "parse_frame ext (c1 # c2 # rest) (INITIAL_BYTES, c)
        = Inl (WebSocketError PROTOCOL_ERROR ''Frame mask missing.'')"
    if "of_char c1 mod 16 \<in> {1, 2 :: nat} \<and> (of_char c2 :: nat) < 128"
    using that by (intro parse_frame_header_error) (auto simp add: pib WebSocketOpcode_of_def msk)
  have 5: "parse_frame ext (c1 # c2 # rest) (INITIAL_BYTES, c)
        = Inl (WebSocketError PROTOCOL_ERROR ''Frame mask missing.'')"
    if "of_char c1 mod 16 \<in> {8, 9, 10 :: nat} \<and> (of_char c1 :: nat) \<ge> 128
        \<and> (of_char c2 :: nat) \<le> 125"
    using that by (intro parse_frame_header_error) (auto simp add: pib WebSocketOpcode_of_def fin msk)
  have 6: "parse_headers urlparse (line @ [LF] @ remaining) HTTPParser_init = Inl ValueError"
    if "LF \<notin> set line \<and> list_all (\<lambda>ch. (of_char ch :: nat) < 128) line
        \<and> length (split_on CHR '' '' (strip str_isspace (line @ [LF]))) \<noteq> 3"
    using that by (intro malformed_request_line) simp_all
  from 1 2 3 4 5 6 show ?thesis by simp
qed

theorem peer_input_errors_witness:
  "(\<forall>ext rest c. parse_frame ext (CHR 0x83 # CHR 0x80 # rest) (INITIAL_BYTES, c) = Inl ValueError)
   \<and> (\<forall>ext rest c. parse_frame ext (CHR 0x09 # CHR 0x80 # rest) (INITIAL_BYTES, c)
          = Inl (WebSocketError PROTOCOL_ERROR ''Control frame is fragmented.''))
   \<and> (\<forall>ext rest c. parse_frame ext (CHR 0x89 # CHR 0xFE # rest) (INITIAL_BYTES, c)
          = Inl (WebSocketError PROTOCOL_ERROR ''Control frame payload greater than 125 bytes.''))
   \<and> (\<forall>ext rest c. parse_frame ext (CHR 0x81 # CHR 0x02 # rest) (INITIAL_BYTES, c)
          = Inl (WebSocketError PROTOCOL_ERROR ''Frame mask missing.''))
   \<and> (\<forall>ext rest c. parse_frame ext (CHR 0x88 # CHR 0x00 # rest) (INITIAL_BYTES, c)
          = Inl (WebSocketError PROTOCOL_ERROR ''Frame mask missing.''))
   \<and> (\<forall>urlparse remaining.
          parse_headers urlparse (''GET /'' @ [CR] @ [LF] @ remaining) HTTPParser_init = Inl ValueError)"
proof (intro conjI allI)
  fix ext :: externals and rest :: bytes and c :: ASGIConnection
  show "parse_frame ext (CHR 0x83 # CHR 0x80 # rest) (INITIAL_BYTES, c) = Inl ValueError"
    using peer_input_errors [where ?c1.0 = "CHR 0x83" and ?c2.0 = "CHR 0x80" and ext = ext
        and rest = rest and c = c]
    by simp
  show "parse_frame ext (CHR 0x09 # CHR 0x80 # rest) (INITIAL_BYTES, c)
          = Inl (WebSocketError PROTOCOL_ERROR ''Control frame is fragmented.'')"
    using peer_input_errors [where ?c1.0 = "CHR 0x09" and ?c2.0 = "CHR 0x80" and ext = ext
        and rest = rest and c = c]
    by simp
  show "parse_frame ext (CHR 0x89 # CHR 0xFE # rest) (INITIAL_BYTES, c)
          = Inl (WebSocketError PROTOCOL_ERROR ''Control frame payload greater than 125 bytes.'')"
    using peer_input_errors [where ?c1.0 = "CHR 0x89" and ?c2.0 = "CHR 0xFE" and ext = ext
        and rest = rest and c = c]
    by simp
  show "parse_frame ext (CHR 0x81 # CHR 0x02 # rest) (INITIAL_BYTES, c)
          = Inl (WebSocketError PROTOCOL_ERROR ''Frame mask missing.'')"
    using peer_input_errors [where ?c1.0 = "CHR 0x81" and ?c2.0 = "CHR 0x02" and ext = ext
        and rest = rest and c = c]
    by simp
  show "parse_frame ext (CHR 0x88 # CHR 0x00 # rest) (INITIAL_BYTES, c)
          = Inl (WebSocketError PROTOCOL_ERROR ''Frame mask missing.'')"
    using peer_input_errors [where ?c1.0 = "CHR 0x88" and ?c2.0 = "CHR 0x00" and ext = ext
        and rest = rest and c = c]
    by simp
next
  fix urlparse :: "string \<Rightarrow> error + string \<times> string" and remaining :: bytes
  have s: "length (split_on CHR '' '' (strip str_isspace ((''GET /'' @ [CR]) @ [LF]))) \<noteq> 3"
    by code_simp
  have a: "list_all (\<lambda>ch. (of_char ch :: nat) < 128) (''GET /'' @ [CR])" by simp
  have l: "LF \<notin> set (''GET /'' @ [CR])" by simp
  from peer_input_errors [where line = "''GET /'' @ [CR]" and urlparse = urlparse
      and remaining = remaining] s a l
  have "parse_headers urlparse ((''GET /'' @ [CR]) @ [LF] @ remaining) HTTPParser_init = Inl ValueError"
    by blast
  then show "parse_headers urlparse (''GET /'' @ [CR] @ [LF] @ remaining) HTTPParser_init = Inl ValueError"
    by simp
qed

section \<open>Extended payload lengths and Ping frames\<close>

lemma of_char_frame_bytes:
  "(of_char (CHR 0x81) :: nat) = 129" "(of_char (CHR 0x89) :: nat) = 137"
  "(of_char (CHR 0x80) :: nat) = 128" "(of_char (CHR 0x82) :: nat) = 130"
  "(of_char (CHR 0xFE) :: nat) = 254" "(of_char (CHR 0xFF) :: nat) = 255"
  by simp_all

lemma initial_bytes_text_126:
  "parse_initial_bytes 129 254
     = Inr (PAYLOAD_LENGTH, \<lparr> l_opcode = TEXT, l_is_control_frame = False, l_payload_len = 126 \<rparr>)"
  by (simp add: parse_initial_bytes_fields WebSocketOpcode_of_def)

lemma initial_bytes_text_127:
  "parse_initial_bytes 129 255
     = Inr (PAYLOAD_LENGTH, \<lparr> l_opcode = TEXT, l_is_control_frame = False, l_payload_len = 127 \<rparr>)"
  by (simp add: parse_initial_bytes_fields WebSocketOpcode_of_def)

lemma initial_bytes_ping_0:
  "parse_initial_bytes 137 128
     = Inr (MASKING_KEY, \<lparr> l_opcode = PING, l_is_control_frame = True, l_payload_len = 0 \<rparr>)"
  by (simp add: parse_initial_bytes_fields WebSocketOpcode_of_def)

lemma initial_bytes_ping_2:
  "parse_initial_bytes 137 130
     = Inr (MASKING_KEY, \<lparr> l_opcode = PING, l_is_control_frame = True, l_payload_len = 2 \<rparr>)"
  by (simp add: parse_initial_bytes_fields WebSocketOpcode_of_def)


lemma feed_coroutine: "feed_data ext CoroutineContent p = Inl TypeError"
  by (simp add: feed_data_def)

lemma deliver_ping:
  "deliver_frame ext \<lparr> l_opcode = PING, l_is_control_frame = True, l_payload_len = n \<rparr> payload_data c
     = Inl TypeError"
  by (simp add: deliver_frame_def feed_coroutine)

text \<open>
  C4. A frame whose 7-bit length is 126 or 127 is never decoded: the extended length is
  sliced as a \<^verbatim>\<open>bytearray\<close> and formatted with \<^verbatim>\<open>08b\<close>, which raises \<open>TypeError\<close>
  (or the slice length is never bound, when fewer than 2 or 8 bytes follow). So no payload
  bytes come out of a text frame with the header bytes 0x81 0xFE or 0x81 0xFF, whatever
  follows, in particular not out of the frame that announces 126 bytes as 0x00 0x7E.
\<close>

theorem extended_length_never_decoded:
  "parse_frame ext (CHR 0x81 # CHR 0xFE # rest) (INITIAL_BYTES, c)
     = (if length rest \<ge> 2 then Inl TypeError else Inl UnboundLocalError)
   \<and> parse_frame ext (CHR 0x81 # CHR 0xFF # rest) (INITIAL_BYTES, c)
     = (if length rest \<ge> 8 then Inl TypeError else Inl UnboundLocalError)
   \<and> parse_frame ext (CHR 0x81 # CHR 0xFE # CHR 0x00 # CHR 0x7E # key_and_payload) (INITIAL_BYTES, c)
     = Inl TypeError"
  by (simp add: parse_frame_def of_char_frame_bytes initial_bytes_text_126 initial_bytes_text_127
      parse_payload_length_def format_08b_bytearray_def)

text \<open>
  C6. A masked Ping frame with FIN set, empty or carrying the payload \<^verbatim>\<open>hi\<close>, makes
  \<^verbatim>\<open>parse_frame\<close> raise \<open>TypeError\<close>: the encoder is called without \<^verbatim>\<open>await\<close>, and
  \<^verbatim>\<open>feed_data\<close> takes the length of the coroutine object. Nothing is written to the
  transport. The payload was unmasked correctly, and the encoder, had it run, would have
  raised \<open>ValueError\<close> on the opcode it is given (Ping, not Pong).
\<close>

theorem ping_is_not_answered:
  "parse_frame ext (CHR 0x89 # CHR 0x80 # k0 # k1 # k2 # k3 # rest) (INITIAL_BYTES, c) = Inl TypeError
   \<and> parse_frame ext [CHR 0x89, CHR 0x82, CHR 0x37, CHR 0xFA, CHR 0x21, CHR 0x3D, CHR 0x5F, CHR 0x93]
         (INITIAL_BYTES, c) = Inl TypeError
   \<and> unmask [CHR 0x5F, CHR 0x93] [CHR 0x37, CHR 0xFA, CHR 0x21, CHR 0x3D] 2 = Inr ''hi''
   \<and> get_frame_content (BytesPayload ''hi'') PING 1 0 0 0 = Inl ValueError"
proof (intro conjI)
  have u0: "unmask rest [k0, k1, k2, k3] 0 = Inr []"
    by (simp add: unmask_def py_bytes_def)
  show "parse_frame ext (CHR 0x89 # CHR 0x80 # k0 # k1 # k2 # k3 # rest) (INITIAL_BYTES, c) = Inl TypeError"
    by (simp add: parse_frame_def of_char_frame_bytes initial_bytes_ping_0 u0 deliver_ping)
  show u2: "unmask [CHR 0x5F, CHR 0x93] [CHR 0x37, CHR 0xFA, CHR 0x21, CHR 0x3D] 2 = Inr ''hi''"
    by code_simp
  show "parse_frame ext [CHR 0x89, CHR 0x82, CHR 0x37, CHR 0xFA, CHR 0x21, CHR 0x3D, CHR 0x5F, CHR 0x93]
         (INITIAL_BYTES, c) = Inl TypeError"
    by (simp add: parse_frame_def of_char_frame_bytes initial_bytes_ping_2 u2 deliver_ping)
  show "get_frame_content (BytesPayload ''hi'') PING 1 0 0 0 = Inl ValueError"
    by code_simp
qed

section \<open>The HTTP response body\<close>

lemma slice_prefix: "slice (b @ r) 0 (int (length b)) = b"
  by (simp add: slice_def norm_index_def)

lemma feed_data_writes:
  assumes "proto_state p \<noteq> PROTO_REQUEST"
  shows "\<exists>buf. feed_data ext (BytesContent b) p
           = Inr (p\<lparr>buffer_data := buf, transport_written := transport_written p @ [b]\<rparr>)"
proof -
  let ?p1 = "get_buffer (length b) p"
  have st: "proto_state ?p1 = proto_state p" and tw: "transport_written ?p1 = transport_written p"
    by (simp_all add: get_buffer_def)
  have eq: "?p1\<lparr>buffer_data := b @ drop (length b) (buffer_data ?p1),
                 transport_written := transport_written p @ [b]\<rparr>
        = p\<lparr>buffer_data := b @ drop (length b) (buffer_data ?p1),
             transport_written := transport_written p @ [b]\<rparr>"
    by (simp add: get_buffer_def)
  have "feed_data ext (BytesContent b) p
      = Inr (p\<lparr>buffer_data := b @ drop (length b) (buffer_data ?p1),
                  transport_written := transport_written p @ [b]\<rparr>)"
    using assms st tw eq
    by (simp add: feed_data_def buffer_updated_def Let_def slice_prefix)
  then show ?thesis by blast
qed

lemma final_body_without_content_length:
  assumes "proto_state p \<noteq> PROTO_REQUEST"
  shows "\<exists>buf. on_http_response_body ext ((msg ''http.response.body'')\<lparr>m_body := Some b\<rparr>)
           \<lparr> protocol = p, conn_state = RESPONSE, app_queue = q,
             content_length = None, content = Some ct \<rparr>
         = Inr \<lparr> protocol = p\<lparr>buffer_data := buf,
                     transport_written := transport_written p
                       @ [concat ct @ ''content-length: '' @ hex_digits (length b) @ [CR, LF, CR, LF]
                            @ b @ [CR, LF]]\<rparr>,
                 conn_state = CLOSED, app_queue = q, content_length = None,
                 content = Some (ct @ [''content-length: '' @ hex_digits (length b) @ [CR, LF, CR, LF],
                                       b, [CR, LF]]) \<rparr>"
proof -
  let ?out = "concat ct @ ''content-length: '' @ hex_digits (length b) @ [CR, LF, CR, LF] @ b @ [CR, LF]"
  from feed_data_writes [OF assms, of ext ?out] obtain buf where
    "feed_data ext (BytesContent ?out) p
       = Inr (p\<lparr>buffer_data := buf, transport_written := transport_written p @ [?out]\<rparr>)"
    by blast
  then show ?thesis
    by (intro exI [of _ buf])
       (simp add: on_http_response_body_def Let_def msg_def update_connection_state_def)
qed


lemma final_body_closes:
  assumes "proto_state p \<noteq> PROTO_REQUEST"
  shows "\<exists>c1. on_http_response_body ext ((msg ''http.response.body'')\<lparr>m_body := Some b\<rparr>)
           \<lparr> protocol = p, conn_state = RESPONSE, app_queue = q,
             content_length = cl, content = Some ct \<rparr> = Inr c1
         \<and> conn_state c1 = CLOSED \<and> app_queue c1 = q"
proof -
  let ?ct1 = "if cl = None
              then ct @ [''content-length: '' @ hex_digits (length b) @ [CR, LF, CR, LF]]
              else ct @ [[CR, LF]]"
  let ?out = "concat (?ct1 @ [b, [CR, LF]])"
  from feed_data_writes [OF assms, of ext ?out] obtain buf where
    "feed_data ext (BytesContent ?out) p
       = Inr (p\<lparr>buffer_data := buf, transport_written := transport_written p @ [?out]\<rparr>)"
    by blast
  then show ?thesis
    by (cases cl) (simp_all add: on_http_response_body_def Let_def msg_def update_connection_state_def)
qed

lemma complete_closed_connection:
  "conn_state c1 = CLOSED \<Longrightarrow>
     on_connection_complete c1 = Inr (c1\<lparr>protocol := on_response_complete (protocol c1)\<rparr>)"
  by (simp add: on_connection_complete_def put_message_def)

lemma send_body_handler:
  "send ext ((msg ''http.response.body'')\<lparr>m_body := Some b\<rparr>) c =
     (case on_http_response_body ext ((msg ''http.response.body'')\<lparr>m_body := Some b\<rparr>) c of
        Inl e \<Rightarrow> Inl e
      | Inr c1 \<Rightarrow> (if conn_state c1 = CLOSED then on_connection_complete c1 else Inr c1))"
  by (simp add: send_def Let_def msg_def)

text \<open>
  C7. For a response started without a content-length header (any preamble \<open>ct\<close>) and
  completed by one body message of 16 bytes, the bytes written are the preamble, the line
  \<^verbatim>\<open>content-length: 10\<close>, an empty line, the body and CRLF: the length is formatted with
  \<^verbatim>\<open>%x\<close>, so it is the hexadecimal \<^verbatim>\<open>10\<close> and not the decimal \<^verbatim>\<open>16\<close>.
\<close>

theorem content_length_written_in_hexadecimal:
  "(case on_http_response_body ext ((msg ''http.response.body'')\<lparr>m_body := Some ''0123456789abcdef''\<rparr>)
           \<lparr> protocol = p\<lparr>proto_state := PROTO_RESPONSE\<rparr>, conn_state = RESPONSE, app_queue = q,
             content_length = None, content = Some ct \<rparr> of
      Inl e \<Rightarrow> False
    | Inr c' \<Rightarrow>
        transport_written (protocol c')
          = transport_written p
              @ [concat ct @ ''content-length: 10'' @ [CR, LF, CR, LF] @ ''0123456789abcdef'' @ [CR, LF]]
        \<and> conn_state c' = CLOSED)
   \<and> length ''0123456789abcdef'' = 16 \<and> hex_digits 16 = ''10'' \<and> dec_digits 16 = ''16''"
proof -
  have h: "hex_digits (length ''0123456789abcdef'') = ''10''" by code_simp
  have n: "proto_state (p\<lparr>proto_state := PROTO_RESPONSE\<rparr>) \<noteq> PROTO_REQUEST" by simp
  from final_body_without_content_length [OF n, of ext "''0123456789abcdef''" q ct]
  have "case on_http_response_body ext ((msg ''http.response.body'')\<lparr>m_body := Some ''0123456789abcdef''\<rparr>)
           \<lparr> protocol = p\<lparr>proto_state := PROTO_RESPONSE\<rparr>, conn_state = RESPONSE, app_queue = q,
             content_length = None, content = Some ct \<rparr> of
      Inl e \<Rightarrow> False
    | Inr c' \<Rightarrow>
        transport_written (protocol c')
          = transport_written p
              @ [concat ct @ ''content-length: 10'' @ [CR, LF, CR, LF] @ ''0123456789abcdef'' @ [CR, LF]]
        \<and> conn_state c' = CLOSED"
    unfolding h by auto
  moreover have "length ''0123456789abcdef'' = 16" by simp
  moreover have "hex_digits 16 = ''10''" by code_simp
  moreover have "dec_digits 16 = ''16''" by code_simp
  ultimately show ?thesis by blast
qed

text \<open>
  C8. When \<^verbatim>\<open>send\<close> handles the final body message of a response, the connection
  becomes \<open>CLOSED\<close> and the application queue is left as it was: \<^verbatim>\<open>put_message\<close> returns
  at once on a closed connection, so the \<^verbatim>\<open>http.disconnect\<close> message that
  \<^verbatim>\<open>on_connection_complete\<close> passes to it is dropped, and a later \<^verbatim>\<open>receive\<close> returns the
  head of the old queue, or waits if it is empty.
\<close>

theorem disconnect_message_is_dropped:
  "(case send ext ((msg ''http.response.body'')\<lparr>m_body := Some b\<rparr>)
           \<lparr> protocol = p\<lparr>proto_state := PROTO_RESPONSE\<rparr>, conn_state = RESPONSE,
             app_queue = Some q, content_length = cl, content = Some ct \<rparr> of
      Inl e \<Rightarrow> False
    | Inr c' \<Rightarrow>
        conn_state c' = CLOSED \<and> app_queue c' = Some q
        \<and> map_option fst (receive c') = (case q of [] \<Rightarrow> None | m # ms \<Rightarrow> Some m))
   \<and> put_message (msg ''http.disconnect'')
         \<lparr> protocol = p, conn_state = CLOSED, app_queue = Some q, content_length = cl, content = co \<rparr>
       = Inr \<lparr> protocol = p, conn_state = CLOSED, app_queue = Some q, content_length = cl, content = co \<rparr>"
proof
  have n: "proto_state (p\<lparr>proto_state := PROTO_RESPONSE\<rparr>) \<noteq> PROTO_REQUEST" by simp
  from final_body_closes [OF n, of ext b "Some q" cl ct] obtain c1 where
    c1: "on_http_response_body ext ((msg ''http.response.body'')\<lparr>m_body := Some b\<rparr>)
           \<lparr> protocol = p\<lparr>proto_state := PROTO_RESPONSE\<rparr>, conn_state = RESPONSE,
             app_queue = Some q, content_length = cl, content = Some ct \<rparr> = Inr c1"
    and cl: "conn_state c1 = CLOSED" and q: "app_queue c1 = Some q"
    by blast
  have "send ext ((msg ''http.response.body'')\<lparr>m_body := Some b\<rparr>)
           \<lparr> protocol = p\<lparr>proto_state := PROTO_RESPONSE\<rparr>, conn_state = RESPONSE,
             app_queue = Some q, content_length = cl, content = Some ct \<rparr>
        = Inr (c1\<lparr>protocol := on_response_complete (protocol c1)\<rparr>)"
    by (simp add: send_body_handler c1 cl complete_closed_connection)
  then show "case send ext ((msg ''http.response.body'')\<lparr>m_body := Some b\<rparr>)
           \<lparr> protocol = p\<lparr>proto_state := PROTO_RESPONSE\<rparr>, conn_state = RESPONSE,
             app_queue = Some q, content_length = cl, content = Some ct \<rparr> of
      Inl e \<Rightarrow> False
    | Inr c' \<Rightarrow>
        conn_state c' = CLOSED \<and> app_queue c' = Some q
        \<and> map_option fst (receive c') = (case q of [] \<Rightarrow> None | m # ms \<Rightarrow> Some m)"
    using cl q by (simp add: receive_def split: list.splits)
next
  show "put_message (msg ''http.disconnect'')
         \<lparr> protocol = p, conn_state = CLOSED, app_queue = Some q, content_length = cl, content = co \<rparr>
       = Inr \<lparr> protocol = p, conn_state = CLOSED, app_queue = Some q, content_length = cl, content = co \<rparr>"
    by (simp add: put_message_def)
qed

section \<open>The accept key\<close>

text \<open>
  The digest of the key of the repository's own test, followed block by block: the padded
  message, the sixteen words of each block, the eighty words of the schedule, the state
  after the rounds, and the digest in base64.
\<close>

lemma guid_bytes: "utf8_encode WEBSOCKET_ACCEPT_GUID = ''258EAFA5-E914-47DA-95CA-C5AB0DC85B11''"
  by code_simp

lemma accept_key_message:
  "strip bytes_isspace ''Y56tJpDd+hCW+vDb0qdekQ=='' @ utf8_encode WEBSOCKET_ACCEPT_GUID
     = ''Y56tJpDd+hCW+vDb0qdekQ==258EAFA5-E914-47DA-95CA-C5AB0DC85B11''"
  by code_simp

lemma char_of_0: "char_of (0 :: nat) = CHR 0x00"
  by code_simp

lemma char_of_1: "char_of (Suc 0) = CHR 0x01"
  by (simp add: char_of_def bit_0 bit_Suc)

lemma char_of_480: "char_of (480 :: nat) = CHR 0xE0"
  by code_simp

lemma length_bit_count: "be_bytes 8 480 = [CHR 0x00, CHR 0x00, CHR 0x00, CHR 0x00, CHR 0x00, CHR 0x00, CHR 0x01, CHR 0xE0]"
  by (simp add: be_bytes_def upt_rec char_of_0 char_of_1 char_of_480)

lemma zeros_59: "replicate 59 (CHR 0x00) = [CHR 0x00, CHR 0x00, CHR 0x00, CHR 0x00, CHR 0x00, CHR 0x00, CHR 0x00, CHR 0x00, CHR 0x00, CHR 0x00, CHR 0x00, CHR 0x00, CHR 0x00, CHR 0x00, CHR 0x00, CHR 0x00, CHR 0x00, CHR 0x00, CHR 0x00, CHR 0x00, CHR 0x00, CHR 0x00, CHR 0x00, CHR 0x00, CHR 0x00, CHR 0x00, CHR 0x00, CHR 0x00, CHR 0x00, CHR 0x00, CHR 0x00, CHR 0x00, CHR 0x00, CHR 0x00, CHR 0x00, CHR 0x00, CHR 0x00, CHR 0x00, CHR 0x00, CHR 0x00, CHR 0x00, CHR 0x00, CHR 0x00, CHR 0x00, CHR 0x00, CHR 0x00, CHR 0x00, CHR 0x00, CHR 0x00, CHR 0x00, CHR 0x00, CHR 0x00, CHR 0x00, CHR 0x00, CHR 0x00, CHR 0x00, CHR 0x00, CHR 0x00, CHR 0x00]"
  by (simp add: numeral_eq_Suc)

lemma accept_key_padded:
  "sha1_pad ''Y56tJpDd+hCW+vDb0qdekQ==258EAFA5-E914-47DA-95CA-C5AB0DC85B11''
     = [CHR 0x59, CHR 0x35, CHR 0x36, CHR 0x74, CHR 0x4A, CHR 0x70, CHR 0x44, CHR 0x64, CHR 0x2B, CHR 0x68, CHR 0x43, CHR 0x57, CHR 0x2B, CHR 0x76, CHR 0x44, CHR 0x62, CHR 0x30, CHR 0x71, CHR 0x64, CHR 0x65, CHR 0x6B, CHR 0x51, CHR 0x3D, CHR 0x3D, CHR 0x32, CHR 0x35, CHR 0x38, CHR 0x45, CHR 0x41, CHR 0x46, CHR 0x41, CHR 0x35, CHR 0x2D, CHR 0x45, CHR 0x39, CHR 0x31, CHR 0x34, CHR 0x2D, CHR 0x34, CHR 0x37, CHR 0x44, CHR 0x41, CHR 0x2D, CHR 0x39, CHR 0x35, CHR 0x43, CHR 0x41, CHR 0x2D, CHR 0x43, CHR 0x35, CHR 0x41, CHR 0x42, CHR 0x30, CHR 0x44, CHR 0x43, CHR 0x38, CHR 0x35, CHR 0x42, CHR 0x31, CHR 0x31, CHR 0x80, CHR 0x00, CHR 0x00, CHR 0x00]
       @ [CHR 0x00, CHR 0x00, CHR 0x00, CHR 0x00, CHR 0x00, CHR 0x00, CHR 0x00, CHR 0x00, CHR 0x00, CHR 0x00, CHR 0x00, CHR 0x00, CHR 0x00, CHR 0x00, CHR 0x00, CHR 0x00, CHR 0x00, CHR 0x00, CHR 0x00, CHR 0x00, CHR 0x00, CHR 0x00, CHR 0x00, CHR 0x00, CHR 0x00, CHR 0x00, CHR 0x00, CHR 0x00, CHR 0x00, CHR 0x00, CHR 0x00, CHR 0x00, CHR 0x00, CHR 0x00, CHR 0x00, CHR 0x00, CHR 0x00, CHR 0x00, CHR 0x00, CHR 0x00, CHR 0x00, CHR 0x00, CHR 0x00, CHR 0x00, CHR 0x00, CHR 0x00, CHR 0x00, CHR 0x00, CHR 0x00, CHR 0x00, CHR 0x00, CHR 0x00, CHR 0x00, CHR 0x00, CHR 0x00, CHR 0x00, CHR 0x00, CHR 0x00, CHR 0x00, CHR 0x00, CHR 0x00, CHR 0x00, CHR 0x01, CHR 0xE0]"
proof -
  have len: "length ''Y56tJpDd+hCW+vDb0qdekQ==258EAFA5-E914-47DA-95CA-C5AB0DC85B11'' = 60"
    by simp
  have fill: "(64 - (60 + 9) mod 64) mod 64 = (59 :: nat)" and bits: "8 * 60 = (480 :: nat)"
    by simp_all
  show ?thesis
    unfolding sha1_pad_def len fill bits zeros_59 length_bit_count by simp
qed

lemma accept_key_blocks:
  "chunks_of 64 (sha1_pad ''Y56tJpDd+hCW+vDb0qdekQ==258EAFA5-E914-47DA-95CA-C5AB0DC85B11'')
     = [[CHR 0x59, CHR 0x35, CHR 0x36, CHR 0x74, CHR 0x4A, CHR 0x70, CHR 0x44, CHR 0x64, CHR 0x2B, CHR 0x68, CHR 0x43, CHR 0x57, CHR 0x2B, CHR 0x76, CHR 0x44, CHR 0x62, CHR 0x30, CHR 0x71, CHR 0x64, CHR 0x65, CHR 0x6B, CHR 0x51, CHR 0x3D, CHR 0x3D, CHR 0x32, CHR 0x35, CHR 0x38, CHR 0x45, CHR 0x41, CHR 0x46, CHR 0x41, CHR 0x35, CHR 0x2D, CHR 0x45, CHR 0x39, CHR 0x31, CHR 0x34, CHR 0x2D, CHR 0x34, CHR 0x37, CHR 0x44, CHR 0x41, CHR 0x2D, CHR 0x39, CHR 0x35, CHR 0x43, CHR 0x41, CHR 0x2D, CHR 0x43, CHR 0x35, CHR 0x41, CHR 0x42, CHR 0x30, CHR 0x44, CHR 0x43, CHR 0x38, CHR 0x35, CHR 0x42, CHR 0x31, CHR 0x31, CHR 0x80, CHR 0x00, CHR 0x00, CHR 0x00],
        [CHR 0x00, CHR 0x00, CHR 0x00, CHR 0x00, CHR 0x00, CHR 0x00, CHR 0x00, CHR 0x00, CHR 0x00, CHR 0x00, CHR 0x00, CHR 0x00, CHR 0x00, CHR 0x00, CHR 0x00, CHR 0x00, CHR 0x00, CHR 0x00, CHR 0x00, CHR 0x00, CHR 0x00, CHR 0x00, CHR 0x00, CHR 0x00, CHR 0x00, CHR 0x00, CHR 0x00, CHR 0x00, CHR 0x00, CHR 0x00, CHR 0x00, CHR 0x00, CHR 0x00, CHR 0x00, CHR 0x00, CHR 0x00, CHR 0x00, CHR 0x00, CHR 0x00, CHR 0x00, CHR 0x00, CHR 0x00, CHR 0x00, CHR 0x00, CHR 0x00, CHR 0x00, CHR 0x00, CHR 0x00, CHR 0x00, CHR 0x00, CHR 0x00, CHR 0x00, CHR 0x00, CHR 0x00, CHR 0x00, CHR 0x00, CHR 0x00, CHR 0x00, CHR 0x00, CHR 0x00, CHR 0x00, CHR 0x00, CHR 0x01, CHR 0xE0]]"
  unfolding accept_key_padded by (simp add: chunks_of.simps)

lemma accept_key_words_0:
  "map be_word (chunks_of 4 [CHR 0x59, CHR 0x35, CHR 0x36, CHR 0x74, CHR 0x4A, CHR 0x70, CHR 0x44, CHR 0x64, CHR 0x2B, CHR 0x68, CHR 0x43, CHR 0x57, CHR 0x2B, CHR 0x76, CHR 0x44, CHR 0x62, CHR 0x30, CHR 0x71, CHR 0x64, CHR 0x65, CHR 0x6B, CHR 0x51, CHR 0x3D, CHR 0x3D, CHR 0x32, CHR 0x35, CHR 0x38, CHR 0x45, CHR 0x41, CHR 0x46, CHR 0x41, CHR 0x35, CHR 0x2D, CHR 0x45, CHR 0x39, CHR 0x31, CHR 0x34, CHR 0x2D, CHR 0x34, CHR 0x37, CHR 0x44, CHR 0x41, CHR 0x2D, CHR 0x39, CHR 0x35, CHR 0x43, CHR 0x41, CHR 0x2D, CHR 0x43, CHR 0x35, CHR 0x41, CHR 0x42, CHR 0x30, CHR 0x44, CHR 0x43, CHR 0x38, CHR 0x35, CHR 0x42, CHR 0x31, CHR 0x31, CHR 0x80, CHR 0x00, CHR 0x00, CHR 0x00])
     = [0x59353674, 0x4A704464, 0x2B684357, 0x2B764462, 0x30716465, 0x6B513D3D, 0x32353845, 0x41464135, 0x2D453931, 0x342D3437, 0x44412D39, 0x3543412D, 0x43354142, 0x30444338, 0x35423131, 0x80000000]"
  by (simp add: chunks_of.simps)

lemma accept_key_words_1:
  "map be_word (chunks_of 4 [CHR 0x00, CHR 0x00, CHR 0x00, CHR 0x00, CHR 0x00, CHR 0x00, CHR 0x00, CHR 0x00, CHR 0x00, CHR 0x00, CHR 0x00, CHR 0x00, CHR 0x00, CHR 0x00, CHR 0x00, CHR 0x00, CHR 0x00, CHR 0x00, CHR 0x00, CHR 0x00, CHR 0x00, CHR 0x00, CHR 0x00, CHR 0x00, CHR 0x00, CHR 0x00, CHR 0x00, CHR 0x00, CHR 0x00, CHR 0x00, CHR 0x00, CHR 0x00, CHR 0x00, CHR 0x00, CHR 0x00, CHR 0x00, CHR 0x00, CHR 0x00, CHR 0x00, CHR 0x00, CHR 0x00, CHR 0x00, CHR 0x00, CHR 0x00, CHR 0x00, CHR 0x00, CHR 0x00, CHR 0x00, CHR 0x00, CHR 0x00, CHR 0x00, CHR 0x00, CHR 0x00, CHR 0x00, CHR 0x00, CHR 0x00, CHR 0x00, CHR 0x00, CHR 0x00, CHR 0x00, CHR 0x00, CHR 0x00, CHR 0x01, CHR 0xE0])
     = [0x00000000, 0x00000000, 0x00000000, 0x00000000, 0x00000000, 0x00000000, 0x00000000, 0x00000000, 0x00000000, 0x00000000, 0x00000000, 0x00000000, 0x00000000, 0x00000000, 0x00000000, 0x000001E0]"
  by (simp add: chunks_of.simps)

lemma accept_key_schedule_0:
  "sha1_extend [0x59353674, 0x4A704464, 0x2B684357, 0x2B764462, 0x30716465, 0x6B513D3D, 0x32353845, 0x41464135, 0x2D453931, 0x342D3437, 0x44412D39, 0x3543412D, 0x43354142, 0x30444338, 0x35423131, 0x80000000]
     = [0x59353674, 0x4A704464, 0x2B684357, 0x2B764462, 0x30716465, 0x6B513D3D, 0x32353845, 0x41464135, 0x2D453931, 0x342D3437, 0x44412D39, 0x3543412D, 0x43354142, 0x30444338, 0x35423131, 0x80000000, 0xDEB81E54, 0xC0D20A00, 0xBEB01417, 0x57B84C4D, 0x03462EC5, 0x49C6564F, 0xFB14F810, 0xEC5AB78F, 0xFCF4B827, 0x75510E14, 0xAB3D9FC6, 0x5C97ECFF, 0x00C0A144, 0xA57F1562, 0x98F27714, 0x58903997, 0x73074E0C, 0xF5927E9A, 0x9CB73906, 0x63DD71E2, 0x1A001216, 0x38A99B49, 0xF99E8D83, 0xB7372435, 0x38CFE548, 0x4B9423E4, 0x00FA4763, 0x45F4DA6F, 0x934DCF45, 0x8B79E1BF, 0xAF3EDDE8, 0x12F158FB, 0xB80CE7FA, 0xE5CBE2E8, 0x29786911, 0x4D19AE7D, 0x2A316471, 0x5B3E6FA4, 0x46EC36BC, 0x88C676B7, 0xB60E54EB, 0x5A8E5BBF, 0x64132F00, 0x6B35828C, 0x99985AC6, 0x4D4BF3C1, 0x75D71C44, 0xCCC92CC5, 0xD4625382, 0x0F1616DD, 0x57261D4B, 0x52E021AF, 0xF4A63DAD, 0x932BEF33, 0xAFAABF79, 0xD44E78C1, 0x2AA98EB5, 0x220EE12F, 0xFDC62098, 0xBC6FBCAE, 0x75CF3400, 0xDEDE215F, 0x64E09823, 0xC4BCEDB2]"
  by (simp add: sha1_extend.simps Let_def rotl32_def)

lemma accept_key_schedule_1:
  "sha1_extend [0x00000000, 0x00000000, 0x00000000, 0x00000000, 0x00000000, 0x00000000, 0x00000000, 0x00000000, 0x00000000, 0x00000000, 0x00000000, 0x00000000, 0x00000000, 0x00000000, 0x00000000, 0x000001E0]
     = [0x00000000, 0x00000000, 0x00000000, 0x00000000, 0x00000000, 0x00000000, 0x00000000, 0x00000000, 0x00000000, 0x00000000, 0x00000000, 0x00000000, 0x00000000, 0x00000000, 0x00000000, 0x000001E0, 0x00000000, 0x00000000, 0x000003C0, 0x00000000, 0x00000000, 0x00000780, 0x00000000, 0x000003C0, 0x00000F00, 0x00000000, 0x00000000, 0x00001E00, 0x00000000, 0x00000CC0, 0x00003C00, 0x00000440, 0x00000000, 0x00007800, 0x00000F00, 0x00003300, 0x0000F000, 0x00000F00, 0x00000000, 0x0001EF00, 0x00000000, 0x0000CC00, 0x0003C000, 0x00004380, 0x00000000, 0x00078F00, 0x0000FF00, 0x00032680, 0x000F0000, 0x0000F000, 0x00003300, 0x001EFF00, 0x00000000, 0x000CB800, 0x003C0000, 0x00040B00, 0x0000F000, 0x0078FF00, 0x000FF000, 0x00338700, 0x00F00000, 0x000FC300, 0x0000F000, 0x01EFBB00, 0x00000000, 0x00CC0000, 0x03C0F000, 0x00438000, 0x00000000, 0x078F0000, 0x00FF0000, 0x03269E00, 0x0F000000, 0x00F0F000, 0x00333C00, 0x1EFF8800, 0x00000000, 0x0CB88800, 0x3C00F000, 0x040A4A00]"
  by (simp add: sha1_extend.simps Let_def rotl32_def)

lemma accept_key_rounds_0_60:
  "sha1_rounds 60 [0x99985AC6, 0x4D4BF3C1, 0x75D71C44, 0xCCC92CC5, 0xD4625382, 0x0F1616DD, 0x57261D4B, 0x52E021AF, 0xF4A63DAD, 0x932BEF33, 0xAFAABF79, 0xD44E78C1, 0x2AA98EB5, 0x220EE12F, 0xFDC62098, 0xBC6FBCAE, 0x75CF3400, 0xDEDE215F, 0x64E09823, 0xC4BCEDB2]
     (0x04DF7D7A, 0x8FF2611D, 0xD96A5682, 0xFC6B2E2E, 0xC00828AC)
     = (0x58F6FD6D, 0x76936CD6, 0x45D4DF39, 0x81299111, 0x4D3449A9)"
  by (simp add: Let_def rotl32_def)

lemma accept_key_rounds_0_40:
  "sha1_rounds 40 [0x38CFE548, 0x4B9423E4, 0x00FA4763, 0x45F4DA6F, 0x934DCF45, 0x8B79E1BF, 0xAF3EDDE8, 0x12F158FB, 0xB80CE7FA, 0xE5CBE2E8, 0x29786911, 0x4D19AE7D, 0x2A316471, 0x5B3E6FA4, 0x46EC36BC, 0x88C676B7, 0xB60E54EB, 0x5A8E5BBF, 0x64132F00, 0x6B35828C, 0x99985AC6, 0x4D4BF3C1, 0x75D71C44, 0xCCC92CC5, 0xD4625382, 0x0F1616DD, 0x57261D4B, 0x52E021AF, 0xF4A63DAD, 0x932BEF33, 0xAFAABF79, 0xD44E78C1, 0x2AA98EB5, 0x220EE12F, 0xFDC62098, 0xBC6FBCAE, 0x75CF3400, 0xDEDE215F, 0x64E09823, 0xC4BCEDB2]
     (0x168F780C, 0x3FD7B04E, 0xD4A9059D, 0xAE299356, 0xA075D6B0)
     = (0x58F6FD6D, 0x76936CD6, 0x45D4DF39, 0x81299111, 0x4D3449A9)"
  by (simp add: Let_def rotl32_def accept_key_rounds_0_60)

lemma accept_key_rounds_0_20:
  "sha1_rounds 20 [0x03462EC5, 0x49C6564F, 0xFB14F810, 0xEC5AB78F, 0xFCF4B827, 0x75510E14, 0xAB3D9FC6, 0x5C97ECFF, 0x00C0A144, 0xA57F1562, 0x98F27714, 0x58903997, 0x73074E0C, 0xF5927E9A, 0x9CB73906, 0x63DD71E2, 0x1A001216, 0x38A99B49, 0xF99E8D83, 0xB7372435, 0x38CFE548, 0x4B9423E4, 0x00FA4763, 0x45F4DA6F, 0x934DCF45, 0x8B79E1BF, 0xAF3EDDE8, 0x12F158FB, 0xB80CE7FA, 0xE5CBE2E8, 0x29786911, 0x4D19AE7D, 0x2A316471, 0x5B3E6FA4, 0x46EC36BC, 0x88C676B7, 0xB60E54EB, 0x5A8E5BBF, 0x64132F00, 0x6B35828C, 0x99985AC6, 0x4D4BF3C1, 0x75D71C44, 0xCCC92CC5, 0xD4625382, 0x0F1616DD, 0x57261D4B, 0x52E021AF, 0xF4A63DAD, 0x932BEF33, 0xAFAABF79, 0xD44E78C1, 0x2AA98EB5, 0x220EE12F, 0xFDC62098, 0xBC6FBCAE, 0x75CF3400, 0xDEDE215F, 0x64E09823, 0xC4BCEDB2]
     (0xCB38A2F3, 0x3847C0F9, 0x149091AF, 0x3E4A89E0, 0x4952D696)
     = (0x58F6FD6D, 0x76936CD6, 0x45D4DF39, 0x81299111, 0x4D3449A9)"
  by (simp add: Let_def rotl32_def accept_key_rounds_0_40)

lemma accept_key_rounds_0_0:
  "sha1_rounds 0 [0x59353674, 0x4A704464, 0x2B684357, 0x2B764462, 0x30716465, 0x6B513D3D, 0x32353845, 0x41464135, 0x2D453931, 0x342D3437, 0x44412D39, 0x3543412D, 0x43354142, 0x30444338, 0x35423131, 0x80000000, 0xDEB81E54, 0xC0D20A00, 0xBEB01417, 0x57B84C4D, 0x03462EC5, 0x49C6564F, 0xFB14F810, 0xEC5AB78F, 0xFCF4B827, 0x75510E14, 0xAB3D9FC6, 0x5C97ECFF, 0x00C0A144, 0xA57F1562, 0x98F27714, 0x58903997, 0x73074E0C, 0xF5927E9A, 0x9CB73906, 0x63DD71E2, 0x1A001216, 0x38A99B49, 0xF99E8D83, 0xB7372435, 0x38CFE548, 0x4B9423E4, 0x00FA4763, 0x45F4DA6F, 0x934DCF45, 0x8B79E1BF, 0xAF3EDDE8, 0x12F158FB, 0xB80CE7FA, 0xE5CBE2E8, 0x29786911, 0x4D19AE7D, 0x2A316471, 0x5B3E6FA4, 0x46EC36BC, 0x88C676B7, 0xB60E54EB, 0x5A8E5BBF, 0x64132F00, 0x6B35828C, 0x99985AC6, 0x4D4BF3C1, 0x75D71C44, 0xCCC92CC5, 0xD4625382, 0x0F1616DD, 0x57261D4B, 0x52E021AF, 0xF4A63DAD, 0x932BEF33, 0xAFAABF79, 0xD44E78C1, 0x2AA98EB5, 0x220EE12F, 0xFDC62098, 0xBC6FBCAE, 0x75CF3400, 0xDEDE215F, 0x64E09823, 0xC4BCEDB2]
     (0x67452301, 0xEFCDAB89, 0x98BADCFE, 0x10325476, 0xC3D2E1F0)
     = (0x58F6FD6D, 0x76936CD6, 0x45D4DF39, 0x81299111, 0x4D3449A9)"
  by (simp add: Let_def rotl32_def accept_key_rounds_0_20)


lemma accept_key_rounds_1_60:
  "sha1_rounds 60 [0x00F00000, 0x000FC300, 0x0000F000, 0x01EFBB00, 0x00000000, 0x00CC0000, 0x03C0F000, 0x00438000, 0x00000000, 0x078F0000, 0x00FF0000, 0x03269E00, 0x0F000000, 0x00F0F000, 0x00333C00, 0x1EFF8800, 0x00000000, 0x0CB88800, 0x3C00F000, 0x040A4A00]
     (0x868490C4, 0x897CE66B, 0x9E982C14, 0xF226AB9C, 0x9A4AC8C8)
     = (0x679859B0, 0xD1B07736, 0x8AF1B4CE, 0xB42DE800, 0xC79997D1)"
  by (simp add: Let_def rotl32_def)

lemma accept_key_rounds_1_40:
  "sha1_rounds 40 [0x00000000, 0x0000CC00, 0x0003C000, 0x00004380, 0x00000000, 0x00078F00, 0x0000FF00, 0x00032680, 0x000F0000, 0x0000F000, 0x00003300, 0x001EFF00, 0x00000000, 0x000CB800, 0x003C0000, 0x00040B00, 0x0000F000, 0x0078FF00, 0x000FF000, 0x00338700, 0x00F00000, 0x000FC300, 0x0000F000, 0x01EFBB00, 0x00000000, 0x00CC0000, 0x03C0F000, 0x00438000, 0x00000000, 0x078F0000, 0x00FF0000, 0x03269E00, 0x0F000000, 0x00F0F000, 0x00333C00, 0x1EFF8800, 0x00000000, 0x0CB88800, 0x3C00F000, 0x040A4A00]
     (0x18954FF9, 0xC3A7C4E8, 0x8C5B28C2, 0x186E650E, 0xF7407A3A)
     = (0x679859B0, 0xD1B07736, 0x8AF1B4CE, 0xB42DE800, 0xC79997D1)"
  by (simp add: Let_def rotl32_def accept_key_rounds_1_60)

lemma accept_key_rounds_1_20:
  "sha1_rounds 20 [0x00000000, 0x00000780, 0x00000000, 0x000003C0, 0x00000F00, 0x00000000, 0x00000000, 0x00001E00, 0x00000000, 0x00000CC0, 0x00003C00, 0x00000440, 0x00000000, 0x00007800, 0x00000F00, 0x00003300, 0x0000F000, 0x00000F00, 0x00000000, 0x0001EF00, 0x00000000, 0x0000CC00, 0x0003C000, 0x00004380, 0x00000000, 0x00078F00, 0x0000FF00, 0x00032680, 0x000F0000, 0x0000F000, 0x00003300, 0x001EFF00, 0x00000000, 0x000CB800, 0x003C0000, 0x00040B00, 0x0000F000, 0x0078FF00, 0x000FF000, 0x00338700, 0x00F00000, 0x000FC300, 0x0000F000, 0x01EFBB00, 0x00000000, 0x00CC0000, 0x03C0F000, 0x00438000, 0x00000000, 0x078F0000, 0x00FF0000, 0x03269E00, 0x0F000000, 0x00F0F000, 0x00333C00, 0x1EFF8800, 0x00000000, 0x0CB88800, 0x3C00F000, 0x040A4A00]
     (0x11C647C6, 0x7021047B, 0xEB18452B, 0x1740B31A, 0xFD943880)
     = (0x679859B0, 0xD1B07736, 0x8AF1B4CE, 0xB42DE800, 0xC79997D1)"
  by (simp add: Let_def rotl32_def accept_key_rounds_1_40)

lemma accept_key_rounds_1_0:
  "sha1_rounds 0 [0x00000000, 0x00000000, 0x00000000, 0x00000000, 0x00000000, 0x00000000, 0x00000000, 0x00000000, 0x00000000, 0x00000000, 0x00000000, 0x00000000, 0x00000000, 0x00000000, 0x00000000, 0x000001E0, 0x00000000, 0x00000000, 0x000003C0, 0x00000000, 0x00000000, 0x00000780, 0x00000000, 0x000003C0, 0x00000F00, 0x00000000, 0x00000000, 0x00001E00, 0x00000000, 0x00000CC0, 0x00003C00, 0x00000440, 0x00000000, 0x00007800, 0x00000F00, 0x00003300, 0x0000F000, 0x00000F00, 0x00000000, 0x0001EF00, 0x00000000, 0x0000CC00, 0x0003C000, 0x00004380, 0x00000000, 0x00078F00, 0x0000FF00, 0x00032680, 0x000F0000, 0x0000F000, 0x00003300, 0x001EFF00, 0x00000000, 0x000CB800, 0x003C0000, 0x00040B00, 0x0000F000, 0x0078FF00, 0x000FF000, 0x00338700, 0x00F00000, 0x000FC300, 0x0000F000, 0x01EFBB00, 0x00000000, 0x00CC0000, 0x03C0F000, 0x00438000, 0x00000000, 0x078F0000, 0x00FF0000, 0x03269E00, 0x0F000000, 0x00F0F000, 0x00333C00, 0x1EFF8800, 0x00000000, 0x0CB88800, 0x3C00F000, 0x040A4A00]
     (0xC03C206E, 0x6661185F, 0xDE8FBC37, 0x915BE587, 0x11072B99)
     = (0x679859B0, 0xD1B07736, 0x8AF1B4CE, 0xB42DE800, 0xC79997D1)"
  by (simp add: Let_def rotl32_def accept_key_rounds_1_20)


lemma accept_key_block_0:
  "sha1_block (0x67452301, 0xEFCDAB89, 0x98BADCFE, 0x10325476, 0xC3D2E1F0) [CHR 0x59, CHR 0x35, CHR 0x36, CHR 0x74, CHR 0x4A, CHR 0x70, CHR 0x44, CHR 0x64, CHR 0x2B, CHR 0x68, CHR 0x43, CHR 0x57, CHR 0x2B, CHR 0x76, CHR 0x44, CHR 0x62, CHR 0x30, CHR 0x71, CHR 0x64, CHR 0x65, CHR 0x6B, CHR 0x51, CHR 0x3D, CHR 0x3D, CHR 0x32, CHR 0x35, CHR 0x38, CHR 0x45, CHR 0x41, CHR 0x46, CHR 0x41, CHR 0x35, CHR 0x2D, CHR 0x45, CHR 0x39, CHR 0x31, CHR 0x34, CHR 0x2D, CHR 0x34, CHR 0x37, CHR 0x44, CHR 0x41, CHR 0x2D, CHR 0x39, CHR 0x35, CHR 0x43, CHR 0x41, CHR 0x2D, CHR 0x43, CHR 0x35, CHR 0x41, CHR 0x42, CHR 0x30, CHR 0x44, CHR 0x43, CHR 0x38, CHR 0x35, CHR 0x42, CHR 0x31, CHR 0x31, CHR 0x80, CHR 0x00, CHR 0x00, CHR 0x00]
     = (0xC03C206E, 0x6661185F, 0xDE8FBC37, 0x915BE587, 0x11072B99)"
  unfolding sha1_block_def accept_key_words_0 accept_key_schedule_0 accept_key_rounds_0_0
  by simp

lemma accept_key_block_1:
  "sha1_block (0xC03C206E, 0x6661185F, 0xDE8FBC37, 0x915BE587, 0x11072B99) [CHR 0x00, CHR 0x00, CHR 0x00, CHR 0x00, CHR 0x00, CHR 0x00, CHR 0x00, CHR 0x00, CHR 0x00, CHR 0x00, CHR 0x00, CHR 0x00, CHR 0x00, CHR 0x00, CHR 0x00, CHR 0x00, CHR 0x00, CHR 0x00, CHR 0x00, CHR 0x00, CHR 0x00, CHR 0x00, CHR 0x00, CHR 0x00, CHR 0x00, CHR 0x00, CHR 0x00, CHR 0x00, CHR 0x00, CHR 0x00, CHR 0x00, CHR 0x00, CHR 0x00, CHR 0x00, CHR 0x00, CHR 0x00, CHR 0x00, CHR 0x00, CHR 0x00, CHR 0x00, CHR 0x00, CHR 0x00, CHR 0x00, CHR 0x00, CHR 0x00, CHR 0x00, CHR 0x00, CHR 0x00, CHR 0x00, CHR 0x00, CHR 0x00, CHR 0x00, CHR 0x00, CHR 0x00, CHR 0x00, CHR 0x00, CHR 0x00, CHR 0x00, CHR 0x00, CHR 0x00, CHR 0x00, CHR 0x00, CHR 0x01, CHR 0xE0]
     = (0x27D47A1E, 0x38118F95, 0x69817105, 0x4589CD87, 0xD8A0C36A)"
  unfolding sha1_block_def accept_key_words_1 accept_key_schedule_1 accept_key_rounds_1_0
  by simp

lemma accept_key_digest:
  "sha1_digest (0x27D47A1E, 0x38118F95, 0x69817105, 0x4589CD87, 0xD8A0C36A)
     = [CHR 0x27, CHR 0xD4, CHR 0x7A, CHR 0x1E, CHR 0x38, CHR 0x11, CHR 0x8F, CHR 0x95, CHR 0x69, CHR 0x81, CHR 0x71, CHR 0x05, CHR 0x45, CHR 0x89, CHR 0xCD, CHR 0x87, CHR 0xD8, CHR 0xA0, CHR 0xC3, CHR 0x6A]"
  by (simp add: be_bytes_def upt_rec char_of_eq_iff take_bit_eq_mod)

lemma accept_key_base64:
  "b64encode [CHR 0x27, CHR 0xD4, CHR 0x7A, CHR 0x1E, CHR 0x38, CHR 0x11, CHR 0x8F, CHR 0x95, CHR 0x69, CHR 0x81, CHR 0x71, CHR 0x05, CHR 0x45, CHR 0x89, CHR 0xCD, CHR 0x87, CHR 0xD8, CHR 0xA0, CHR 0xC3, CHR 0x6A]
     = ''J9R6HjgRj5VpgXEFRYnNh9igw2o=''"
  by (simp add: b64_alphabet_def Let_def)

lemma accept_key_sha1:
  "sha1 ''Y56tJpDd+hCW+vDb0qdekQ==258EAFA5-E914-47DA-95CA-C5AB0DC85B11''
     = [CHR 0x27, CHR 0xD4, CHR 0x7A, CHR 0x1E, CHR 0x38, CHR 0x11, CHR 0x8F, CHR 0x95, CHR 0x69, CHR 0x81, CHR 0x71, CHR 0x05, CHR 0x45, CHR 0x89, CHR 0xCD, CHR 0x87, CHR 0xD8, CHR 0xA0, CHR 0xC3, CHR 0x6A]"
  unfolding sha1_def accept_key_blocks
  by (simp only: foldl.simps accept_key_block_0 accept_key_block_1 accept_key_digest)

text \<open>
  Claim C9. For every value \<open>k\<close> of the \<^verbatim>\<open>Sec-WebSocket-Key\<close> header the accept key
  is the base64 encoding of the SHA-1 digest of \<open>k\<close>, stripped of leading and trailing ASCII
  whitespace, followed by the GUID \<^verbatim>\<open>258EAFA5-E914-47DA-95CA-C5AB0DC85B11\<close>; for the key
  \<^verbatim>\<open>Y56tJpDd+hCW+vDb0qdekQ==\<close> it is \<^verbatim>\<open>J9R6HjgRj5VpgXEFRYnNh9igw2o=\<close>.
\<close>

theorem accept_key_is_base64_sha1:
  "(\<forall>k. get_websocket_accept_key k
          = b64encode (sha1 (strip bytes_isspace k @ ''258EAFA5-E914-47DA-95CA-C5AB0DC85B11'')))
   \<and> get_websocket_accept_key ''Y56tJpDd+hCW+vDb0qdekQ=='' = ''J9R6HjgRj5VpgXEFRYnNh9igw2o=''"
proof -
  have general: "get_websocket_accept_key k
      = b64encode (sha1 (strip bytes_isspace k @ ''258EAFA5-E914-47DA-95CA-C5AB0DC85B11''))" for k
    unfolding get_websocket_accept_key_def Let_def guid_bytes ..
  have "get_websocket_accept_key ''Y56tJpDd+hCW+vDb0qdekQ=='' = ''J9R6HjgRj5VpgXEFRYnNh9igw2o=''"
    unfolding get_websocket_accept_key_def Let_def accept_key_message accept_key_sha1
    by (rule accept_key_base64)
  with general show ?thesis
    by blast
qed

end
